theory Spec2Isabelle
  imports Complex_Main "HOL-Library.Char_ord"
begin

section \<open>Characters and the string utilities of parser.cpp\<close>

text \<open>
  \<^verbatim>\<open>std::string\<close> is a byte string: \<open>string\<close>. The control characters are written by
  their codes: tab 0x09, newline 0x0A, vertical tab 0x0B, form feed 0x0C, carriage return 0x0D.
\<close>

definition in_range :: "char \<Rightarrow> char \<Rightarrow> char \<Rightarrow> bool" where
  "in_range lo hi c \<longleftrightarrow> lo \<le> c \<and> c \<le> hi"

definition is_digit :: "char \<Rightarrow> bool" where
  "is_digit c \<longleftrightarrow> in_range CHR ''0'' CHR ''9'' c"

definition is_alpha :: "char \<Rightarrow> bool" where
  "is_alpha c \<longleftrightarrow> in_range CHR ''a'' CHR ''z'' c \<or> in_range CHR ''A'' CHR ''Z'' c"

text \<open>\<^verbatim>\<open>isspace\<close> in the "C" locale: space, \<^verbatim>\<open>\t \n \v \f \r\<close>.\<close>

definition is_space :: "char \<Rightarrow> bool" where
  "is_space c \<longleftrightarrow> c \<in> set [CHR '' '', CHR 0x09, CHR 0x0A, CHR 0x0B, CHR 0x0C, CHR 0x0D]"

text \<open>
  \<^verbatim>\<open>trim\<close>: \<^verbatim>\<open>find_first_not_of(" \t\r\n")\<close>, \<^verbatim>\<open>find_last_not_of(" \t\r\n")\<close>, and the
  substring between them; the empty string when every character is in the set.
\<close>

definition trim_char :: "char \<Rightarrow> bool" where
  "trim_char c \<longleftrightarrow> c \<in> set [CHR '' '', CHR 0x09, CHR 0x0D, CHR 0x0A]"

definition trim :: "string \<Rightarrow> string" where
  "trim s = rev (dropWhile trim_char (rev (dropWhile trim_char s)))"

text \<open>
  \<^verbatim>\<open>while (getline(stream, item, delimiter))\<close>: the items of a stream. An item ends at
  the delimiter, which is consumed, or at the end of the stream; at the end of the stream
  \<^verbatim>\<open>getline\<close> fails when it has extracted no character, so a final delimiter is not
  followed by an empty item. \<open>acc\<close> is the item being read, reversed.
\<close>

primrec getline_items :: "char \<Rightarrow> string \<Rightarrow> string \<Rightarrow> string list" where
  "getline_items d acc [] = (if acc = [] then [] else [rev acc])"
| "getline_items d acc (c # cs) =
     (if c = d then rev acc # getline_items d [] cs else getline_items d (c # acc) cs)"

definition getlines :: "string \<Rightarrow> char \<Rightarrow> string list" where
  "getlines s d = getline_items d [] s"

definition split :: "string \<Rightarrow> char \<Rightarrow> string list" where
  "split s delimiter = map trim (getlines s delimiter)"

definition isBlank :: "string \<Rightarrow> bool" where
  "isBlank s \<longleftrightarrow> trim s = []"

definition isOperator :: "string \<Rightarrow> bool" where
  "isOperator s \<longleftrightarrow> s = ''<='' \<or> s = ''>='' \<or> s = ''=''"

text \<open>\<^verbatim>\<open>s.rfind(p, 0) == 0\<close>: \<open>s\<close> starts with \<open>p\<close>.\<close>

definition starts_with :: "string \<Rightarrow> string \<Rightarrow> bool" where
  "starts_with p s \<longleftrightarrow> take (length p) s = p"

text \<open>\<^verbatim>\<open>s.find(p)\<close>: the index of the first occurrence of \<open>p\<close> in \<open>s\<close>, \<open>None\<close> for \<^verbatim>\<open>npos\<close>.\<close>

primrec find_from :: "string \<Rightarrow> nat \<Rightarrow> string \<Rightarrow> nat option" where
  "find_from p i [] = (if p = [] then Some i else None)"
| "find_from p i (c # cs) =
     (if starts_with p (c # cs) then Some i else find_from p (Suc i) cs)"

definition find_str :: "string \<Rightarrow> string \<Rightarrow> nat option" where
  "find_str s p = find_from p 0 s"


section \<open>The regular expressions of parser.cpp\<close>

text \<open>
  The parser uses \<^verbatim>\<open>std::regex\<close> with the default ECMAScript grammar: a backtracking
  matcher that tries the alternatives of a pattern in priority order (a greedy quantifier
  tries the longest repetition first, an alternation its branches from left to right) and
  takes the first one that succeeds. Every quantifier of the five patterns of parser.cpp is
  applied to a one-character atom, and every alternation is between literals, so the
  patterns are written in this fragment.
\<close>

datatype cls =
    Digit           \<comment> \<open>\<^verbatim>\<open>\d\<close>\<close>
  | Space           \<comment> \<open>\<^verbatim>\<open>\s\<close>\<close>
  | Word            \<comment> \<open>\<^verbatim>\<open>\w\<close> and \<^verbatim>\<open>[a-zA-Z0-9_]\<close>\<close>
  | IdStart         \<comment> \<open>\<^verbatim>\<open>[a-zA-Z_]\<close>\<close>
  | AnyChar         \<comment> \<open>\<^verbatim>\<open>.\<close>: any character but a line terminator\<close>
  | Lit char        \<comment> \<open>one character, as \<^verbatim>\<open>\.\<close> and \<^verbatim>\<open>-\<close>\<close>
  | OneOf string    \<comment> \<open>a bracket of single characters, as \<^verbatim>\<open>[+-]\<close>\<close>

fun cls_match :: "cls \<Rightarrow> char \<Rightarrow> bool" where
  "cls_match Digit c = is_digit c"
| "cls_match Space c = is_space c"
| "cls_match Word c = (is_alpha c \<or> is_digit c \<or> c = CHR ''_'')"
| "cls_match IdStart c = (is_alpha c \<or> c = CHR ''_'')"
| "cls_match AnyChar c = (c \<noteq> CHR 0x0A \<and> c \<noteq> CHR 0x0D)"
| "cls_match (Lit a) c = (c = a)"
| "cls_match (OneOf as) c = (c \<in> set as)"

datatype regex =
    One cls               \<comment> \<open>an atom\<close>
  | Opt cls               \<comment> \<open>\<^verbatim>\<open>a?\<close>, greedy\<close>
  | Star cls              \<comment> \<open>\<^verbatim>\<open>a*\<close>, greedy\<close>
  | Plus cls              \<comment> \<open>\<^verbatim>\<open>a+\<close>, greedy\<close>
  | Alt "string list"     \<comment> \<open>\<^verbatim>\<open>l1|l2|...\<close> between literals\<close>
  | Seq regex regex       \<comment> \<open>concatenation\<close>
  | Group regex           \<comment> \<open>a capture group \<^verbatim>\<open>(r)\<close>\<close>

text \<open>
  \<open>paths r s\<close> lists every way \<open>r\<close> matches a prefix of \<open>s\<close>, in the order the
  backtracking matcher tries them: each entry holds the texts of the capture groups closed
  on the way and the rest of \<open>s\<close>.
\<close>

definition run_len :: "cls \<Rightarrow> string \<Rightarrow> nat" where
  "run_len a s = length (takeWhile (cls_match a) s)"

primrec paths :: "regex \<Rightarrow> string \<Rightarrow> (string list \<times> string) list" where
  "paths (One a) s =
     (case s of [] \<Rightarrow> [] | c # cs \<Rightarrow> if cls_match a c then [([], cs)] else [])"
| "paths (Opt a) s =
     (case s of [] \<Rightarrow> [([], s)]
      | c # cs \<Rightarrow> if cls_match a c then [([], cs), ([], s)] else [([], s)])"
| "paths (Star a) s = map (\<lambda>k. ([], drop k s)) (rev [0 ..< Suc (run_len a s)])"
| "paths (Plus a) s = map (\<lambda>k. ([], drop k s)) (rev [1 ..< Suc (run_len a s)])"
| "paths (Alt ls) s =
     concat (map (\<lambda>l. if starts_with l s then [([], drop (length l) s)] else []) ls)"
| "paths (Seq r1 r2) s =
     concat (map (\<lambda>(g1, s1). map (\<lambda>(g2, s2). (g1 @ g2, s2)) (paths r2 s1)) (paths r1 s))"
| "paths (Group r) s =
     map (\<lambda>(g, s'). (take (length s - length s') s # g, s')) (paths r s)"

text \<open>
  \<^verbatim>\<open>regex_match\<close>: the first path that consumes the whole string; the result is the list
  of the capture groups \<^verbatim>\<open>match[1]\<close>, \<^verbatim>\<open>match[2]\<close>, ...
\<close>

definition regex_match :: "regex \<Rightarrow> string \<Rightarrow> string list option" where
  "regex_match r s = map_option fst (find (\<lambda>(g, s'). s' = []) (paths r s))"

text \<open>
  \<^verbatim>\<open>sregex_iterator\<close>: the matches of \<open>r\<close> in \<open>s\<close> from left to right. A search tries
  each start position in turn and takes the first path there; the next search starts where
  the match ended. The texts \<^verbatim>\<open>i->str()\<close> are returned. (An empty match restarts one
  character further; the token pattern has none, since it ends in an identifier.)
\<close>

function sregex_all :: "regex \<Rightarrow> string \<Rightarrow> string list" where
  "sregex_all r [] = []"
| "sregex_all r (c # cs) =
     (case paths r (c # cs) of
        [] \<Rightarrow> sregex_all r cs
      | (g, s') # _ \<Rightarrow>
          if length s' < length (c # cs)
          then take (length (c # cs) - length s') (c # cs) # sregex_all r s'
          else sregex_all r cs)"
  by pat_completeness auto
termination
  by (relation "measure (\<lambda>(r, s). length s)") auto

text \<open>\<^verbatim>\<open>regex_replace(t, regex(R"(\s+)"), "")\<close>: every run of white space is removed.\<close>

definition remove_spaces :: "string \<Rightarrow> string" where
  "remove_spaces t = filter (\<lambda>c. \<not> is_space c) t"

text \<open>The patterns, as the source writes them.\<close>

text \<open>\<^verbatim>\<open>([+-]?\d*\.?\d*)([a-zA-Z_][a-zA-Z0-9_]*)\<close>\<close>

definition termPattern :: regex where
  "termPattern =
     Seq (Group (Seq (Opt (OneOf ''+-'')) (Seq (Star Digit) (Seq (Opt (Lit CHR ''.'')) (Star Digit)))))
         (Group (Seq (One IdStart) (Star Word)))"

text \<open>\<^verbatim>\<open>([+-]?\s*\d*\.?\d*[a-zA-Z_][a-zA-Z0-9_]*)\<close>\<close>

definition tokenPattern :: regex where
  "tokenPattern =
     Group (Seq (Opt (OneOf ''+-'')) (Seq (Star Space) (Seq (Star Digit)
       (Seq (Opt (Lit CHR ''.'')) (Seq (Star Digit) (Seq (One IdStart) (Star Word)))))))"

text \<open>\<^verbatim>\<open>(.+)(<=|>=|=)(.+)\<close>\<close>

definition constraintPattern :: regex where
  "constraintPattern =
     Seq (Group (Plus AnyChar)) (Seq (Group (Alt [''<='', ''>='', ''=''])) (Group (Plus AnyChar)))"

text \<open>\<^verbatim>\<open>(\w+)\s*(>=|<=|=)\s*(-?\d+\.?\d*)\<close>\<close>

definition boundPattern :: regex where
  "boundPattern =
     Seq (Group (Plus Word)) (Seq (Star Space) (Seq (Group (Alt [''>='', ''<='', ''=''])) (Seq (Star Space)
       (Group (Seq (Opt (Lit CHR ''-'')) (Seq (Plus Digit) (Seq (Opt (Lit CHR ''.'')) (Star Digit))))))))"


section \<open>Errors\<close>

text \<open>
  Every \<^verbatim>\<open>throw\<close> of the parser is a \<^verbatim>\<open>std::runtime_error\<close> whose message starts with
  \<^verbatim>\<open>"Line " + to_string(line)\<close>; the constructor keeps the line (and the token where the
  message quotes it). \<^verbatim>\<open>std::stod\<close> throws on its own: \<^verbatim>\<open>std::invalid_argument("stod")\<close>
  when no conversion could be made and \<^verbatim>\<open>std::out_of_range("stod")\<close> on a range error;
  neither is a \<^verbatim>\<open>runtime_error\<close> and neither message holds a line.
  \<^verbatim>\<open>unordered_map::at\<close> throws \<^verbatim>\<open>std::out_of_range\<close> for a missing key.
\<close>

datatype error =
    CouldNotOpenInputFile string      \<comment> \<open>\<^verbatim>\<open>"Could not open input file: " + path\<close>\<close>
  | InvalidTermFormat int string      \<comment> \<open>\<^verbatim>\<open>"Line n: Invalid term format: 'token'"\<close>\<close>
  | NoValidTerms int                  \<comment> \<open>\<^verbatim>\<open>"Line n: No valid terms found in expression"\<close>\<close>
  | InvalidConstraintFormat int       \<comment> \<open>\<^verbatim>\<open>"Line n: Invalid constraint format."\<close>\<close>
  | DuplicateOptimizationType int     \<comment> \<open>\<^verbatim>\<open>"Line n: Duplicate optimization type."\<close>\<close>
  | InvalidBoundFormat int            \<comment> \<open>\<^verbatim>\<open>"Line n: Invalid bound format."\<close>\<close>
  | UnexpectedLine int                \<comment> \<open>\<^verbatim>\<open>"Line n: Unexpected line or misplaced section."\<close>\<close>
  | StodInvalidArgument               \<comment> \<open>\<^verbatim>\<open>std::invalid_argument("stod")\<close>\<close>
  | StodOutOfRange                    \<comment> \<open>\<^verbatim>\<open>std::out_of_range("stod")\<close>\<close>
  | MapAtOutOfRange                   \<comment> \<open>\<^verbatim>\<open>std::out_of_range\<close> of \<^verbatim>\<open>unordered_map::at\<close>\<close>
  | UnknownConstraintOperator string  \<comment> \<open>\<^verbatim>\<open>"Unknown constraint operator: " + op\<close>\<close>

text \<open>The line number an error message holds, if it holds one.\<close>

fun error_line :: "error \<Rightarrow> int option" where
  "error_line (InvalidTermFormat n t) = Some n"
| "error_line (NoValidTerms n) = Some n"
| "error_line (InvalidConstraintFormat n) = Some n"
| "error_line (DuplicateOptimizationType n) = Some n"
| "error_line (InvalidBoundFormat n) = Some n"
| "error_line (UnexpectedLine n) = Some n"
| "error_line e = None"


section \<open>Numbers: \<^verbatim>\<open>double\<close> and \<^verbatim>\<open>std::stod\<close>\<close>

text \<open>
  A \<^verbatim>\<open>double\<close> is modelled by the number it denotes: a rational, the two infinities, or
  NaN. The rounding of a decimal literal to the nearest binary64 value is not modelled (the
  literals of the properties below are small integers, which binary64 holds exactly).
\<close>

datatype double = Finite rat | PosInf | NegInf | NaN

definition INFINITY :: double where
  "INFINITY = PosInf"

fun dneg :: "double \<Rightarrow> double" where
  "dneg (Finite v) = Finite (- v)"
| "dneg PosInf = NegInf"
| "dneg NegInf = PosInf"
| "dneg NaN = NaN"

text \<open>
  \<^verbatim>\<open>std::stod(str)\<close> is \<^verbatim>\<open>strtod\<close> with the end pointer dropped: leading white space is
  skipped, then the longest prefix of the rest that is a floating-point literal is
  converted, and what follows it is ignored. The literal is an optional sign and then
  \<^verbatim>\<open>inf\<close> or \<^verbatim>\<open>infinity\<close>, \<^verbatim>\<open>nan\<close>, a hexadecimal literal \<^verbatim>\<open>0x h.h p\<plusminus>d\<close>, or a decimal
  literal \<^verbatim>\<open>d.d e\<plusminus>d\<close> (letters in either case; at least one digit in the mantissa; an
  exponent only when digits follow its sign). With no literal it throws
  \<^verbatim>\<open>invalid_argument\<close>; when \<^verbatim>\<open>strtod\<close> reports \<^verbatim>\<open>ERANGE\<close> it throws \<^verbatim>\<open>out_of_range\<close>.
\<close>

definition digit_val :: "char \<Rightarrow> nat" where
  "digit_val c = of_char c - of_char CHR ''0''"

definition is_xdigit :: "char \<Rightarrow> bool" where
  "is_xdigit c \<longleftrightarrow> is_digit c \<or> in_range CHR ''a'' CHR ''f'' c \<or> in_range CHR ''A'' CHR ''F'' c"

definition xdigit_val :: "char \<Rightarrow> nat" where
  "xdigit_val c =
     (if is_digit c then digit_val c
      else if in_range CHR ''a'' CHR ''f'' c then of_char c - of_char CHR ''a'' + 10
      else of_char c - of_char CHR ''A'' + 10)"

definition dec_nat :: "string \<Rightarrow> nat" where
  "dec_nat ds = foldl (\<lambda>n c. 10 * n + digit_val c) 0 ds"

definition hex_nat :: "string \<Rightarrow> nat" where
  "hex_nat ds = foldl (\<lambda>n c. 16 * n + xdigit_val c) 0 ds"

definition to_lower :: "char \<Rightarrow> char" where
  "to_lower c = (if in_range CHR ''A'' CHR ''Z'' c then char_of (of_char c + (32::nat)) else c)"

definition pow_int :: "rat \<Rightarrow> int \<Rightarrow> rat" where
  "pow_int b e = (if 0 \<le> e then b ^ nat e else 1 / b ^ nat (- e))"

text \<open>
  The mantissa \<^verbatim>\<open>digits [. digits]\<close>: the digits before the point, those after it, and
  the rest of the string; \<open>None\<close> when there is no digit on either side.
\<close>

definition mantissa :: "(char \<Rightarrow> bool) \<Rightarrow> string \<Rightarrow> (string \<times> string \<times> string) option" where
  "mantissa dig s =
     (let ip = takeWhile dig s;
          r = dropWhile dig s;
          point = (case r of [] \<Rightarrow> False | c # _ \<Rightarrow> c = CHR ''.'');
          fp = (if point then takeWhile dig (tl r) else []);
          r' = (if point then dropWhile dig (tl r) else r)
      in if ip = [] \<and> fp = [] then None else Some (ip, fp, r'))"

text \<open>The exponent \<^verbatim>\<open>e\<plusminus>d\<close> (or \<^verbatim>\<open>p\<plusminus>d\<close>) at the head of \<open>s\<close>; 0 when there is none.\<close>

definition exponent :: "char \<Rightarrow> string \<Rightarrow> int" where
  "exponent mark s =
     (case s of [] \<Rightarrow> 0
      | c # r \<Rightarrow>
          if to_lower c \<noteq> mark then 0
          else (let signed = (case r of [] \<Rightarrow> False | x # _ \<Rightarrow> x = CHR ''-'' \<or> x = CHR ''+'');
                    neg = (case r of [] \<Rightarrow> False | x # _ \<Rightarrow> x = CHR ''-'');
                    ds = takeWhile is_digit (if signed then tl r else r)
                in if ds = [] then 0 else if neg then - int (dec_nat ds) else int (dec_nat ds)))"

definition dec_float :: "string \<Rightarrow> rat option" where
  "dec_float s =
     (case mantissa is_digit s of None \<Rightarrow> None
      | Some (ip, fp, r) \<Rightarrow>
          Some (of_nat (dec_nat (ip @ fp)) * pow_int 10 (exponent CHR ''e'' r - int (length fp))))"

definition hex_float :: "string \<Rightarrow> rat option" where
  "hex_float s =
     (case mantissa is_xdigit s of None \<Rightarrow> None
      | Some (ip, fp, r) \<Rightarrow>
          Some (of_nat (hex_nat (ip @ fp)) * pow_int 2 (exponent CHR ''p'' r - 4 * int (length fp))))"

text \<open>
  The range error. Overflow: the value rounds to an infinity, that is its magnitude is at
  least \<open>2\<^sup>1\<^sup>0\<^sup>2\<^sup>4 - 2\<^sup>9\<^sup>7\<^sup>0\<close>. Underflow is reported as glibc does (the C standard leaves
  it to the implementation): the value is not zero, is below the least normal number
  \<open>2\<^sup>-\<^sup>1\<^sup>0\<^sup>2\<^sup>2\<close> also after rounding, and is not a multiple of the least subnormal
  \<open>2\<^sup>-\<^sup>1\<^sup>0\<^sup>7\<^sup>4\<close>.
\<close>

definition is_integer :: "rat \<Rightarrow> bool" where
  "is_integer v \<longleftrightarrow> snd (quotient_of v) = 1"

definition range_error :: "rat \<Rightarrow> bool" where
  "range_error v \<longleftrightarrow>
     2 ^ 1024 - 2 ^ 970 \<le> \<bar>v\<bar> \<or>
     (v \<noteq> 0 \<and> \<bar>v\<bar> < 1 / 2 ^ 1022 - 1 / 2 ^ 1076 \<and> \<not> is_integer (v * 2 ^ 1074))"

definition to_double :: "rat \<Rightarrow> error + double" where
  "to_double v = (if range_error v then Inl StodOutOfRange else Inr (Finite v))"

definition stod :: "string \<Rightarrow> error + double" where
  "stod str =
     (let s0 = dropWhile is_space str;
          signed = (case s0 of [] \<Rightarrow> False | c # _ \<Rightarrow> c = CHR ''-'' \<or> c = CHR ''+'');
          neg = (case s0 of [] \<Rightarrow> False | c # _ \<Rightarrow> c = CHR ''-'');
          s = (if signed then tl s0 else s0)
      in if map to_lower (take 3 s) = ''inf'' then Inr (if neg then NegInf else PosInf)
         else if map to_lower (take 3 s) = ''nan'' then Inr NaN
         else case (if map to_lower (take 2 s) = ''0x'' then hex_float (drop 2 s) else None) of
                Some v \<Rightarrow> to_double (if neg then - v else v)
              | None \<Rightarrow>
                  (case dec_float s of
                     Some v \<Rightarrow> to_double (if neg then - v else v)
                   | None \<Rightarrow> Inl StodInvalidArgument))"


section \<open>The data model of parser.h\<close>

datatype OptType = MAXIMIZE | MINIMIZE

record Term =
  coefficient :: double
  variable :: string

record LinearExpression =
  terms :: "Term list"
  rhs :: double
  op :: string
  lineNumber :: int

datatype VarType = CONTINUOUS | INTEGER | BINARY

text \<open>The field \<^verbatim>\<open>Bound::type\<close> is \<open>vtype\<close> here, \<^verbatim>\<open>LPModel::type\<close> keeps its name.\<close>

record Bound =
  lower :: double
  upper :: double
  isFree :: bool
  vtype :: VarType

record LPModel =
  type :: OptType
  objective :: LinearExpression
  constraints :: "LinearExpression list"
  bounds :: "string \<rightharpoonup> Bound"

text \<open>The member initialisers of \<^verbatim>\<open>Bound\<close>.\<close>

definition default_Bound :: Bound where
  "default_Bound = \<lparr>lower = dneg INFINITY, upper = INFINITY, isFree = False, vtype = CONTINUOUS\<rparr>"

text \<open>
  \<^verbatim>\<open>model.bounds[var]\<close>: \<^verbatim>\<open>unordered_map::operator[]\<close> inserts a value-initialised
  \<^verbatim>\<open>Bound\<close> when the key is missing and returns a reference to the entry.
  \<open>bounds_ref\<close> is the entry the reference stands for; every use below writes it back.
\<close>

definition bounds_ref :: "(string \<rightharpoonup> Bound) \<Rightarrow> string \<Rightarrow> Bound" where
  "bounds_ref bs var = (case bs var of None \<Rightarrow> default_Bound | Some b \<Rightarrow> b)"

text \<open>
  \<^verbatim>\<open>LPModel model;\<close> default-initialises the model: the containers are empty and
  \<^verbatim>\<open>objective.rhs\<close> is \<open>0.0\<close>, but \<^verbatim>\<open>type\<close> and \<^verbatim>\<open>objective.lineNumber\<close> have no
  initialiser, so they hold whatever the memory held. The two indeterminate values are the
  parameters \<open>t0\<close> and \<open>l0\<close>.
\<close>

definition new_LPModel :: "OptType \<Rightarrow> int \<Rightarrow> LPModel" where
  "new_LPModel t0 l0 =
     \<lparr>type = t0,
      objective = \<lparr>terms = [], rhs = Finite 0, op = [], lineNumber = l0\<rparr>,
      constraints = [],
      bounds = Map.empty\<rparr>"


section \<open>The readers of parser.cpp\<close>

text \<open>\<^verbatim>\<open>parseTerm\<close>: a token such as \<^verbatim>\<open>3x\<close> to its coefficient and variable name.\<close>

definition parseTerm :: "string \<Rightarrow> int \<Rightarrow> error + Term" where
  "parseTerm token line =
     (case regex_match termPattern token of
        Some [coeffStr, var] \<Rightarrow>
          if coeffStr \<noteq> [] \<and> coeffStr \<noteq> ''+'' \<and> coeffStr \<noteq> ''-'' then
            (case stod coeffStr of
               Inl e \<Rightarrow> Inl e
             | Inr coeff \<Rightarrow> Inr \<lparr>coefficient = coeff, variable = var\<rparr>)
          else if coeffStr = ''-'' then Inr \<lparr>coefficient = Finite (- 1), variable = var\<rparr>
          else Inr \<lparr>coefficient = Finite 1, variable = var\<rparr>
      | _ \<Rightarrow> Inl (InvalidTermFormat line token))"

text \<open>
  The loop of \<^verbatim>\<open>parseExpression\<close> over the matches of the token pattern: the inner white
  space of each match is removed and the token is parsed; the first failure ends the loop.
\<close>

fun parseTokens :: "string list \<Rightarrow> int \<Rightarrow> error + Term list" where
  "parseTokens [] line = Inr []"
| "parseTokens (m # ms) line =
     (case parseTerm (remove_spaces m) line of
        Inl e \<Rightarrow> Inl e
      | Inr t \<Rightarrow> (case parseTokens ms line of Inl e \<Rightarrow> Inl e | Inr ts \<Rightarrow> Inr (t # ts)))"

definition parseExpression :: "string \<Rightarrow> int \<Rightarrow> error + Term list" where
  "parseExpression exprStr line =
     (case parseTokens (sregex_all tokenPattern exprStr) line of
        Inl e \<Rightarrow> Inl e
      | Inr ts \<Rightarrow> if ts = [] then Inl (NoValidTerms line) else Inr ts)"

text \<open>\<^verbatim>\<open>parseConstraint\<close>: a line such as \<^verbatim>\<open>x + 2y <= 10\<close> to a \<^verbatim>\<open>LinearExpression\<close>.\<close>

definition parseConstraint :: "string \<Rightarrow> int \<Rightarrow> error + LinearExpression" where
  "parseConstraint lineStr line =
     (case regex_match constraintPattern lineStr of
        Some [lhs, opr, rhsStr] \<Rightarrow>
          (case parseExpression lhs line of
             Inl e \<Rightarrow> Inl e
           | Inr ts \<Rightarrow>
               (case stod rhsStr of
                  Inl e \<Rightarrow> Inl e
                | Inr r \<Rightarrow> Inr \<lparr>terms = ts, rhs = r, op = opr, lineNumber = line\<rparr>))
      | _ \<Rightarrow> Inl (InvalidConstraintFormat line))"


section \<open>\<^verbatim>\<open>Parser::parseFile\<close>\<close>

datatype Section = NONE | CONSTRAINTS | BOUNDS | INTEGERS | BINARIES

text \<open>The local variables of \<^verbatim>\<open>parseFile\<close> that live across the loop.\<close>

record parser_state =
  model :: LPModel
  lineNo :: int
  current :: Section
  objectiveParsed :: bool

definition initial_state :: "OptType \<Rightarrow> int \<Rightarrow> parser_state" where
  "initial_state t0 l0 =
     \<lparr>model = new_LPModel t0 l0, lineNo = 0, current = NONE, objectiveParsed = False\<rparr>"

text \<open>A line of the \<^verbatim>\<open>Bounds:\<close> section, applied to the bounds map.\<close>

definition boundLine :: "string \<Rightarrow> int \<Rightarrow> (string \<rightharpoonup> Bound) \<Rightarrow> error + (string \<rightharpoonup> Bound)" where
  "boundLine line n bs =
     (case find_str line ''free'' of
        Some i \<Rightarrow>
          (let var = trim (take i line)
           in Inr (bs(var \<mapsto> (bounds_ref bs var)\<lparr>isFree := True\<rparr>)))
      | None \<Rightarrow>
          (case regex_match boundPattern line of
             Some [var, opr, valStr] \<Rightarrow>
               (case stod valStr of
                  Inl e \<Rightarrow> Inl e
                | Inr val \<Rightarrow>
                    (let b = bounds_ref bs var
                     in Inr (bs(var \<mapsto>
                          (if opr = ''>='' then b\<lparr>lower := val\<rparr>
                           else if opr = ''<='' then b\<lparr>upper := val\<rparr>
                           else if opr = ''='' then b\<lparr>lower := val, upper := val\<rparr>
                           else b)))))
           | _ \<Rightarrow> Inl (InvalidBoundFormat n)))"

text \<open>
  The body of the loop over the names of a line of the \<^verbatim>\<open>Integer:\<close> or \<^verbatim>\<open>Binary:\<close>
  section.
\<close>

definition declareVar :: "Section \<Rightarrow> (string \<rightharpoonup> Bound) \<Rightarrow> string \<Rightarrow> (string \<rightharpoonup> Bound)" where
  "declareVar cur bs var =
     (let b = (bounds_ref bs var)\<lparr>vtype := (if cur = INTEGERS then INTEGER else BINARY)\<rparr>
      in bs(var \<mapsto> (if cur = BINARIES then b\<lparr>lower := Finite 0, upper := Finite 1\<rparr> else b)))"

text \<open>
  The body of \<^verbatim>\<open>while (getline(file, line))\<close>: \<open>raw\<close> is the line read, the result is the
  state after the body, or the exception thrown.
\<close>

definition loopBody :: "parser_state \<Rightarrow> string \<Rightarrow> error + parser_state" where
  "loopBody st0 raw =
     (let st = st0\<lparr>lineNo := lineNo st0 + 1\<rparr>;
          n = lineNo st;
          line = trim raw;
          m = model st
      in if isBlank line \<or> starts_with ''//'' line then Inr st
         else if line = ''Max'' \<or> line = ''Min'' then
           (if objectiveParsed st then Inl (DuplicateOptimizationType n)
            else Inr (st\<lparr>model := m\<lparr>type := (if line = ''Max'' then MAXIMIZE else MINIMIZE)\<rparr>,
                          objectiveParsed := True\<rparr>))
         else if \<not> objectiveParsed st then
           (case parseExpression line n of
              Inl e \<Rightarrow> Inl e
            | Inr ts \<Rightarrow>
                Inr (st\<lparr>model := m\<lparr>objective :=
                             \<lparr>terms = ts, rhs = Finite 0, op = [], lineNumber = n\<rparr>\<rparr>,
                         objectiveParsed := True,
                         current := CONSTRAINTS\<rparr>))
         else if line = ''Bounds:'' then Inr (st\<lparr>current := BOUNDS\<rparr>)
         else if line = ''Integer:'' then Inr (st\<lparr>current := INTEGERS\<rparr>)
         else if line = ''Binary:'' then Inr (st\<lparr>current := BINARIES\<rparr>)
         else if current st = CONSTRAINTS then
           (case parseConstraint line n of
              Inl e \<Rightarrow> Inl e
            | Inr c \<Rightarrow> Inr (st\<lparr>model := m\<lparr>constraints := constraints m @ [c]\<rparr>\<rparr>))
         else if current st = BOUNDS then
           (case boundLine line n (bounds m) of
              Inl e \<Rightarrow> Inl e
            | Inr bs \<Rightarrow> Inr (st\<lparr>model := m\<lparr>bounds := bs\<rparr>\<rparr>))
         else if current st = INTEGERS \<or> current st = BINARIES then
           Inr (st\<lparr>model := m\<lparr>bounds := foldl (declareVar (current st)) (bounds m)
                                             (split line CHR '','')\<rparr>\<rparr>)
         else Inl (UnexpectedLine n))"

text \<open>The loop: the lines in order, until one throws.\<close>

fun parseLines :: "parser_state \<Rightarrow> string list \<Rightarrow> error + parser_state" where
  "parseLines st [] = Inr st"
| "parseLines st (raw # rest) =
     (case loopBody st raw of Inl e \<Rightarrow> Inl e | Inr st' \<Rightarrow> parseLines st' rest)"

text \<open>\<^verbatim>\<open>parseFile\<close> on an opened stream with the text \<open>content\<close>.\<close>

definition parseStream :: "OptType \<Rightarrow> int \<Rightarrow> string \<Rightarrow> error + LPModel" where
  "parseStream t0 l0 content =
     (case parseLines (initial_state t0 l0) (getlines content (CHR 0x0A)) of
        Inl e \<Rightarrow> Inl e
      | Inr st \<Rightarrow> Inr (model st))"

text \<open>\<^verbatim>\<open>parseFile\<close>: \<open>files\<close> maps the paths that can be opened to their contents.\<close>

definition parseFile :: "(string \<rightharpoonup> string) \<Rightarrow> OptType \<Rightarrow> int \<Rightarrow> string \<Rightarrow> error + LPModel" where
  "parseFile files t0 l0 path =
     (case files path of
        None \<Rightarrow> Inl (CouldNotOpenInputFile path)
      | Some content \<Rightarrow> parseStream t0 l0 content)"


section \<open>\<^verbatim>\<open>GLPKSolver::loadModel\<close>: the lookups by name\<close>

text \<open>
  \<^verbatim>\<open>loadModel\<close> gives every key of \<^verbatim>\<open>model.bounds\<close> a column and records it in
  \<^verbatim>\<open>varNameToCol\<close> (empty in a new solver); it then looks the variable of every term up
  with \<^verbatim>\<open>varNameToCol.at\<close>, first for the objective, then, after the operators of all
  constraints have been checked, for the constraints. The calls into GLPK are not modelled
  (GLPK stops the program on its own when a call breaks its preconditions): the result says
  whether the code of \<^verbatim>\<open>loadModel\<close> itself runs to its end or which exception it throws.
\<close>

fun lookupTerms :: "(string \<rightharpoonup> Bound) \<Rightarrow> Term list \<Rightarrow> error + unit" where
  "lookupTerms cols [] = Inr ()"
| "lookupTerms cols (t # ts) =
     (if cols (variable t) = None then Inl MapAtOutOfRange else lookupTerms cols ts)"

fun checkOperators :: "LinearExpression list \<Rightarrow> error + unit" where
  "checkOperators [] = Inr ()"
| "checkOperators (con # cons) =
     (if isOperator (op con) then checkOperators cons
      else Inl (UnknownConstraintOperator (op con)))"

definition loadModel :: "LPModel \<Rightarrow> error + unit" where
  "loadModel m =
     (case lookupTerms (bounds m) (terms (objective m)) of
        Inl e \<Rightarrow> Inl e
      | Inr _ \<Rightarrow>
          (case checkOperators (constraints m) of
             Inl e \<Rightarrow> Inl e
           | Inr _ \<Rightarrow> lookupTerms (bounds m) (concat (map terms (constraints m)))))"


section \<open>Notions used by the properties\<close>

text \<open>A direction line: \<^verbatim>\<open>Max\<close> or \<^verbatim>\<open>Min\<close> once trimmed.\<close>

definition isDirection :: "string \<Rightarrow> bool" where
  "isDirection raw \<longleftrightarrow> trim raw = ''Max'' \<or> trim raw = ''Min''"

text \<open>A section header: \<^verbatim>\<open>Bounds:\<close>, \<^verbatim>\<open>Integer:\<close> or \<^verbatim>\<open>Binary:\<close> once trimmed.\<close>

definition isHeader :: "string \<Rightarrow> bool" where
  "isHeader raw \<longleftrightarrow> trim raw = ''Bounds:'' \<or> trim raw = ''Integer:'' \<or> trim raw = ''Binary:''"

text \<open>
  A model with the two fields that \<^verbatim>\<open>LPModel model;\<close> leaves indeterminate set to fixed
  values: what is left is what \<^verbatim>\<open>parseFile\<close> has put there or the member initialisers have.
\<close>

definition erase_indeterminate :: "LPModel \<Rightarrow> LPModel" where
  "erase_indeterminate m =
     m\<lparr>type := MAXIMIZE, objective := (objective m)\<lparr>lineNumber := 0\<rparr>\<rparr>"

text \<open>The entry of a variable in the bounds map of a model.\<close>

definition bound_of :: "string \<Rightarrow> LPModel \<Rightarrow> Bound option" where
  "bound_of var m = bounds m var"


text \<open>The number of capture groups of a pattern.\<close>

primrec ngroups :: "regex \<Rightarrow> nat" where
  "ngroups (One a) = 0"
| "ngroups (Opt a) = 0"
| "ngroups (Star a) = 0"
| "ngroups (Plus a) = 0"
| "ngroups (Alt ls) = 0"
| "ngroups (Seq r1 r2) = ngroups r1 + ngroups r2"
| "ngroups (Group r) = Suc (ngroups r)"

text \<open>
  A pattern all of whose matches hold at least one character (by its shape: an atom or a
  \<^verbatim>\<open>+\<close> somewhere in a sequence).
\<close>

primrec nonempty_only :: "regex \<Rightarrow> bool" where
  "nonempty_only (One a) = True"
| "nonempty_only (Opt a) = False"
| "nonempty_only (Star a) = False"
| "nonempty_only (Plus a) = True"
| "nonempty_only (Alt ls) = ([] \<notin> set ls)"
| "nonempty_only (Seq r1 r2) = (nonempty_only r1 \<or> nonempty_only r2)"
| "nonempty_only (Group r) = nonempty_only r"


section \<open>Lemmas on the utilities and on the loop\<close>

declare sregex_all.simps [simp del]

lemma sum_is_Inl: "(case x of Inl e \<Rightarrow> e = a | Inr _ \<Rightarrow> False) \<Longrightarrow> x = Inl a"
  by (cases x) auto

lemma sum_is_Inr: "(case x of Inl _ \<Rightarrow> False | Inr _ \<Rightarrow> True) \<Longrightarrow> \<exists>y. x = Inr y"
  by (cases x) auto

lemma trim_eq_Nil: "trim s = [] \<longleftrightarrow> (\<forall>c\<in>set s. trim_char c)"
proof -
  have a: "trim s = [] \<longleftrightarrow> (\<forall>c\<in>set (dropWhile trim_char s). trim_char c)"
    by (simp add: trim_def)
  have b: "\<forall>c\<in>set s. trim_char c" if h: "\<forall>c\<in>set (dropWhile trim_char s). trim_char c"
  proof (cases "dropWhile trim_char s")
    case Nil
    then show ?thesis by (simp only: dropWhile_eq_Nil_conv)
  next
    case (Cons x xs)
    then have "\<not> trim_char x" using hd_dropWhile [of trim_char s] by simp
    moreover have "trim_char x" using h Cons by simp
    ultimately show ?thesis by simp
  qed
  have c: "\<forall>c\<in>set (dropWhile trim_char s). trim_char c" if "\<forall>c\<in>set s. trim_char c"
    using that by (auto dest: set_dropWhileD)
  from a b c show ?thesis by blast
qed

lemma trim_consts:
  "trim ''Max'' = ''Max''" "trim ''Min'' = ''Min''"
  "trim ''Bounds:'' = ''Bounds:''" "trim ''Integer:'' = ''Integer:''" "trim ''Binary:'' = ''Binary:''"
  by code_simp+

lemma loopBody_direction:
  assumes "isDirection raw"
  shows "loopBody st raw =
     (if objectiveParsed st then Inl (DuplicateOptimizationType (lineNo st + 1))
      else Inr (st\<lparr>lineNo := lineNo st + 1,
                   model := (model st)\<lparr>type := (if trim raw = ''Max'' then MAXIMIZE else MINIMIZE)\<rparr>,
                   objectiveParsed := True\<rparr>))"
  using assms unfolding isDirection_def
  by (auto simp add: loopBody_def Let_def isBlank_def trim_consts starts_with_def)

lemma loopBody_lineNo: "loopBody st raw = Inr st' \<Longrightarrow> lineNo st' = lineNo st + 1"
  by (auto simp add: loopBody_def Let_def split: if_splits sum.splits)

lemma loopBody_objectiveParsed: "loopBody st raw = Inr st' \<Longrightarrow> objectiveParsed st \<Longrightarrow> objectiveParsed st'"
  by (auto simp add: loopBody_def Let_def split: if_splits sum.splits)

lemma loopBody_type: "loopBody st raw = Inr st' \<Longrightarrow> \<not> isDirection raw \<Longrightarrow> type (model st') = type (model st)"
  by (auto simp add: loopBody_def Let_def isDirection_def split: if_splits sum.splits)

lemma parseLines_append:
  "parseLines st (xs @ ys) = (case parseLines st xs of Inl e \<Rightarrow> Inl e | Inr st' \<Rightarrow> parseLines st' ys)"
  by (induction xs arbitrary: st) (auto split: sum.splits)

lemma parseLines_lineNo: "parseLines st ls = Inr st' \<Longrightarrow> lineNo st' = lineNo st + int (length ls)"
  by (induction ls arbitrary: st) (auto split: sum.splits dest: loopBody_lineNo)

lemma parseLines_objectiveParsed: "parseLines st ls = Inr st' \<Longrightarrow> objectiveParsed st \<Longrightarrow> objectiveParsed st'"
  by (induction ls arbitrary: st) (auto split: sum.splits dest: loopBody_objectiveParsed)

lemma parseLines_after_direction:
  assumes "parseLines st ls = Inr st'" and "\<exists>l\<in>set ls. isDirection l"
  shows "objectiveParsed st'"
  using assms
proof (induction ls arbitrary: st)
  case Nil
  then show ?case by simp
next
  case (Cons l ls)
  from Cons.prems(1) obtain s where s: "loopBody st l = Inr s" and r: "parseLines s ls = Inr st'"
    by (auto split: sum.splits)
  show ?case
  proof (cases "isDirection l")
    case True
    with s have "objectiveParsed s"
      by (auto simp add: loopBody_direction split: if_splits)
    with r show ?thesis by (rule parseLines_objectiveParsed)
  next
    case False
    with Cons.prems(2) have "\<exists>l\<in>set ls. isDirection l" by simp
    with r show ?thesis by (rule Cons.IH)
  qed
qed

text \<open>
  A direction line and an objective exclude each other: both set \<^verbatim>\<open>objectiveParsed\<close>,
  and each is refused or skipped when the flag is set. After a direction line no section
  \<open>CONSTRAINTS\<close> is ever open, so the model of an input with a direction line has neither
  objective terms nor constraints.
\<close>

lemma parseLines_second_direction:
  assumes "objectiveParsed st" and "\<exists>l\<in>set ls. isDirection l"
  shows "\<exists>e. parseLines st ls = Inl e"
  using assms
proof (induction ls arbitrary: st)
  case Nil
  then show ?case by simp
next
  case (Cons l ls)
  show ?case
  proof (cases "loopBody st l")
    case (Inl e)
    then show ?thesis by simp
  next
    case (Inr s)
    with Cons.prems(1) have nd: "\<not> isDirection l"
      by (auto simp add: loopBody_direction)
    from Inr Cons.prems(1) have "objectiveParsed s" by (rule loopBody_objectiveParsed)
    moreover from nd Cons.prems(2) have "\<exists>l\<in>set ls. isDirection l" by simp
    ultimately have "\<exists>e. parseLines s ls = Inl e" by (rule Cons.IH)
    with Inr show ?thesis by simp
  qed
qed

lemma loopBody_no_objective:
  assumes "loopBody st raw = Inr st'" and "objectiveParsed st" and "current st \<noteq> CONSTRAINTS"
    and "terms (objective (model st)) = []" and "constraints (model st) = []"
  shows "objectiveParsed st' \<and> current st' \<noteq> CONSTRAINTS \<and>
         terms (objective (model st')) = [] \<and> constraints (model st') = []"
  using assms
  by (auto simp add: loopBody_def Let_def split: if_splits sum.splits)

lemma parseLines_no_objective:
  assumes "parseLines st ls = Inr st'" and "objectiveParsed st" and "current st \<noteq> CONSTRAINTS"
    and "terms (objective (model st)) = []" and "constraints (model st) = []"
  shows "terms (objective (model st')) = [] \<and> constraints (model st') = []"
  using assms
proof (induction ls arbitrary: st)
  case Nil
  then show ?case by simp
next
  case (Cons l ls)
  from Cons.prems(1) obtain s where s: "loopBody st l = Inr s" and r: "parseLines s ls = Inr st'"
    by (auto split: sum.splits)
  from loopBody_no_objective [OF s Cons.prems(2-5)]
  have "objectiveParsed s" "current s \<noteq> CONSTRAINTS"
    "terms (objective (model s)) = []" "constraints (model s) = []"
    by simp_all
  with r show ?case by (rule Cons.IH)
qed

lemma loopBody_first_content:
  assumes "loopBody st raw = Inr st'" and "\<not> objectiveParsed st" and "\<not> isDirection raw"
    and "current st = NONE" and "terms (objective (model st)) = []" and "constraints (model st) = []"
  shows "objectiveParsed st' \<or>
         (current st' = NONE \<and> terms (objective (model st')) = [] \<and> constraints (model st') = [])"
  using assms
  by (auto simp add: loopBody_def Let_def isDirection_def split: if_splits sum.splits)

lemma parseLines_direction_no_objective:
  assumes "parseLines st ls = Inr st'" and "\<exists>l\<in>set ls. isDirection l"
    and "\<not> objectiveParsed st" and "current st = NONE"
    and "terms (objective (model st)) = []" and "constraints (model st) = []"
  shows "terms (objective (model st')) = [] \<and> constraints (model st') = []"
  using assms
proof (induction ls arbitrary: st)
  case Nil
  then show ?case by simp
next
  case (Cons l ls)
  from Cons.prems(1) obtain s where s: "loopBody st l = Inr s" and r: "parseLines s ls = Inr st'"
    by (auto split: sum.splits)
  show ?case
  proof (cases "isDirection l")
    case True
    with s Cons.prems(3) have "s = st\<lparr>lineNo := lineNo st + 1,
        model := (model st)\<lparr>type := (if trim l = ''Max'' then MAXIMIZE else MINIMIZE)\<rparr>,
        objectiveParsed := True\<rparr>"
      by (simp add: loopBody_direction)
    with Cons.prems(4-6) have "objectiveParsed s" "current s \<noteq> CONSTRAINTS"
      "terms (objective (model s)) = []" "constraints (model s) = []"
      by simp_all
    with r show ?thesis by (rule parseLines_no_objective)
  next
    case False
    with Cons.prems(2) have d: "\<exists>l\<in>set ls. isDirection l" by simp
    from loopBody_first_content [OF s Cons.prems(3) False Cons.prems(4-6)]
    show ?thesis
    proof
      assume "objectiveParsed s"
      from parseLines_second_direction [OF this d] r show ?thesis by simp
    next
      assume k: "current s = NONE \<and> terms (objective (model s)) = [] \<and> constraints (model s) = []"
      show ?thesis
      proof (cases "objectiveParsed s")
        case True
        from parseLines_second_direction [OF this d] r show ?thesis by simp
      next
        case False
        from k have "current s = NONE" "terms (objective (model s)) = []"
          "constraints (model s) = []"
          by simp_all
        with r d False show ?thesis by (rule Cons.IH)
      qed
    qed
  qed
qed

lemma direction_excludes_objective:
  assumes "\<exists>l\<in>set (getlines content (CHR 0x0A)). isDirection l"
    and "parseStream t0 l0 content = Inr m"
  shows "terms (objective m) = [] \<and> constraints m = []"
proof -
  from assms(2) obtain st where st: "parseLines (initial_state t0 l0) (getlines content (CHR 0x0A)) = Inr st"
    and m: "m = model st"
    unfolding parseStream_def by (auto split: sum.splits)
  from st assms(1) have "terms (objective (model st)) = [] \<and> constraints (model st) = []"
    by (rule parseLines_direction_no_objective) (simp_all add: initial_state_def new_LPModel_def)
  with m show ?thesis by simp
qed

text \<open>
  In every state the loop reaches, \<^verbatim>\<open>objectiveParsed\<close> holds as soon as a section is open:
  \<^verbatim>\<open>current\<close> is only assigned after the test of the flag.
\<close>

lemma loopBody_section_open:
  assumes "loopBody st raw = Inr st'" and "current st \<noteq> NONE \<longrightarrow> objectiveParsed st"
  shows "current st' \<noteq> NONE \<longrightarrow> objectiveParsed st'"
  using assms
  by (auto simp add: loopBody_def Let_def split: if_splits sum.splits)

lemma parseLines_section_open:
  assumes "parseLines st ls = Inr st'" and "current st \<noteq> NONE \<longrightarrow> objectiveParsed st"
  shows "current st' \<noteq> NONE \<longrightarrow> objectiveParsed st'"
  using assms
proof (induction ls arbitrary: st)
  case Nil
  then show ?case by simp
next
  case (Cons l ls)
  from Cons.prems(1) obtain s where s: "loopBody st l = Inr s" and r: "parseLines s ls = Inr st'"
    by (auto split: sum.splits)
  from loopBody_section_open [OF s Cons.prems(2)] have "current s \<noteq> NONE \<longrightarrow> objectiveParsed s" .
  with r show ?case by (rule Cons.IH)
qed

lemma reachable_section_open:
  "parseLines (initial_state t0 l0) ls = Inr st \<Longrightarrow> current st \<noteq> NONE \<Longrightarrow> objectiveParsed st"
  using parseLines_section_open [of "initial_state t0 l0" ls st]
  by (simp add: initial_state_def)

text \<open>
  The loop body reads neither \<^verbatim>\<open>model.type\<close> nor \<^verbatim>\<open>model.objective.lineNumber\<close>: with
  the two fields erased before or after, it does the same.
\<close>

lemma loopBody_erase:
  "map_sum id (\<lambda>s. s\<lparr>model := erase_indeterminate (model s)\<rparr>) (loopBody (st\<lparr>model := erase_indeterminate (model st)\<rparr>) raw) =
   map_sum id (\<lambda>s. s\<lparr>model := erase_indeterminate (model s)\<rparr>) (loopBody st raw)"
  by (auto simp add: loopBody_def Let_def erase_indeterminate_def split: sum.splits)

lemma parseLines_erase:
  "map_sum id (\<lambda>s. s\<lparr>model := erase_indeterminate (model s)\<rparr>) (parseLines (st\<lparr>model := erase_indeterminate (model st)\<rparr>) ls) =
   map_sum id (\<lambda>s. s\<lparr>model := erase_indeterminate (model s)\<rparr>) (parseLines st ls)"
proof (induction ls arbitrary: st)
  case Nil
  then show ?case by (simp add: erase_indeterminate_def)
next
  case (Cons l ls)
  let ?E = "\<lambda>s. s\<lparr>model := erase_indeterminate (model s)\<rparr>"
  show ?case
  proof (cases "loopBody st l")
    case (Inl e)
    then have "loopBody (?E st) l = Inl e"
      using loopBody_erase [of st l] by (cases "loopBody (?E st) l") auto
    with Inl show ?thesis by simp
  next
    case (Inr s)
    then obtain s' where s': "loopBody (?E st) l = Inr s'" and eq: "?E s' = ?E s"
      using loopBody_erase [of st l] by (cases "loopBody (?E st) l") auto
    have "map_sum id ?E (parseLines s' ls) = map_sum id ?E (parseLines (?E s') ls)"
      by (rule Cons.IH [symmetric])
    also have "\<dots> = map_sum id ?E (parseLines s ls)"
      unfolding eq by (rule Cons.IH)
    finally have f: "map_sum id ?E (parseLines s' ls) = map_sum id ?E (parseLines s ls)" .
    show ?thesis by (simp only: parseLines.simps Inr s' sum.case f)
  qed
qed

lemma parseLines_type:
  assumes "parseLines st1 ls = Inr r1" and "parseLines st2 ls = Inr r2"
    and "type (model st1) = type (model st2) \<or> (\<exists>l\<in>set ls. isDirection l)"
  shows "type (model r1) = type (model r2)"
  using assms
proof (induction ls arbitrary: st1 st2)
  case Nil
  then show ?case by simp
next
  case (Cons l ls)
  from Cons.prems(1) obtain s1 where s1: "loopBody st1 l = Inr s1" and p1: "parseLines s1 ls = Inr r1"
    by (auto split: sum.splits)
  from Cons.prems(2) obtain s2 where s2: "loopBody st2 l = Inr s2" and p2: "parseLines s2 ls = Inr r2"
    by (auto split: sum.splits)
  have "type (model s1) = type (model s2) \<or> (\<exists>l\<in>set ls. isDirection l)"
  proof (cases "isDirection l")
    case True
    with s1 s2 show ?thesis
      by (auto simp add: loopBody_direction split: if_splits)
  next
    case False
    with s1 s2 have "type (model s1) = type (model st1)" "type (model s2) = type (model st2)"
      by (auto dest: loopBody_type)
    with Cons.prems(3) False show ?thesis by auto
  qed
  with p1 p2 show ?case by (rule Cons.IH)
qed

text \<open>A line that holds \<^verbatim>\<open>free\<close> is neither blank nor a direction line nor a header.\<close>

lemma find_from_mem: "find_from p k s = Some i \<Longrightarrow> p \<noteq> [] \<Longrightarrow> hd p \<in> set s"
proof (induction s arbitrary: k)
  case Nil
  then show ?case by simp
next
  case (Cons c cs)
  show ?case
  proof (cases "starts_with p (c # cs)")
    case True
    then have "take (length p) (c # cs) = p" by (simp add: starts_with_def)
    with Cons.prems(2) have "hd p = c" by (cases p) auto
    then show ?thesis by simp
  next
    case False
    with Cons.prems have "find_from p (Suc k) cs = Some i" by simp
    with Cons.IH Cons.prems(2) show ?thesis by auto
  qed
qed

lemma find_free_line:
  assumes "find_str line ''free'' = Some i"
  shows "trim line \<noteq> []" and "line \<noteq> ''Max''" and "line \<noteq> ''Min''"
    and "line \<noteq> ''Bounds:''" and "line \<noteq> ''Integer:''" and "line \<noteq> ''Binary:''"
proof -
  have "CHR ''f'' \<in> set line"
    using find_from_mem [of "''free''" 0 line i] assms by (simp add: find_str_def)
  moreover have "\<not> trim_char CHR ''f''" by (simp add: trim_char_def)
  ultimately show "trim line \<noteq> []" by (auto simp add: trim_eq_Nil)
  have "find_str ''Max'' ''free'' = None" "find_str ''Min'' ''free'' = None"
    "find_str ''Bounds:'' ''free'' = None" "find_str ''Integer:'' ''free'' = None"
    "find_str ''Binary:'' ''free'' = None"
    by code_simp+
  with assms show "line \<noteq> ''Max''" "line \<noteq> ''Min''"
    "line \<noteq> ''Bounds:''" "line \<noteq> ''Integer:''" "line \<noteq> ''Binary:''"
    by auto
qed

lemma split_a_b: "split ''a, b'' CHR '','' = [''a'', ''b'']"
  by code_simp

lemma line_facts:
  "trim ''a, b'' = ''a, b''"
  "\<not> starts_with ''//'' ''a, b''" "\<not> starts_with ''//'' ''Binary:''"
  by code_simp+

lemma loopBody_free:
  assumes "objectiveParsed st" and "current st = BOUNDS"
    and "\<not> starts_with ''//'' (trim raw)"
    and "find_str (trim raw) ''free'' = Some i"
  shows "loopBody st raw =
     Inr (st\<lparr>lineNo := lineNo st + 1,
             model := (model st)\<lparr>bounds := (bounds (model st))
               (trim (take i (trim raw)) \<mapsto>
                  (bounds_ref (bounds (model st)) (trim (take i (trim raw))))\<lparr>isFree := True\<rparr>)\<rparr>\<rparr>)"
  using assms find_free_line [OF assms(4)]
  by (simp add: loopBody_def Let_def isBlank_def boundLine_def)

text \<open>Without a section header the section stays \<open>NONE\<close> or \<open>CONSTRAINTS\<close>, and the bounds map is not touched.\<close>

lemma loopBody_no_header:
  assumes "loopBody st raw = Inr st'" and "\<not> isHeader raw"
    and "current st = NONE \<or> current st = CONSTRAINTS"
  shows "(current st' = NONE \<or> current st' = CONSTRAINTS) \<and> bounds (model st') = bounds (model st)"
  using assms
  by (auto simp add: loopBody_def Let_def isHeader_def split: if_splits sum.splits)

lemma parseLines_no_header:
  assumes "parseLines st ls = Inr st'" and "\<forall>l\<in>set ls. \<not> isHeader l"
    and "current st = NONE \<or> current st = CONSTRAINTS"
  shows "bounds (model st') = bounds (model st)"
  using assms
proof (induction ls arbitrary: st)
  case Nil
  then show ?case by simp
next
  case (Cons l ls)
  from Cons.prems(1) obtain s where s: "loopBody st l = Inr s" and r: "parseLines s ls = Inr st'"
    by (auto split: sum.splits)
  from Cons.prems(2) have nh: "\<not> isHeader l" and rest: "\<forall>l\<in>set ls. \<not> isHeader l" by simp_all
  from loopBody_no_header [OF s nh Cons.prems(3)]
  have c: "current s = NONE \<or> current s = CONSTRAINTS" and b: "bounds (model s) = bounds (model st)"
    by simp_all
  from Cons.IH [OF r rest c] b show ?case by simp
qed








text \<open>
  The constraint pattern: the greedy first group leaves only \<^verbatim>\<open>=\<close> to the second one. If
  the first full match had \<^verbatim>\<open><=\<close> or \<^verbatim>\<open>>=\<close> as its operator, the first group one character
  longer, with the operator \<^verbatim>\<open>=\<close>, would be a full match as well, and an earlier one.
\<close>

lemma find_append_cases:
  "find Q (xs @ ys) = (case find Q xs of None \<Rightarrow> find Q ys | Some x \<Rightarrow> Some x)"
  by (induction xs) auto

lemma find_Some_mem: "find Q xs = Some x \<Longrightarrow> x \<in> set xs \<and> Q x"
  by (induction xs) (auto split: if_splits)

lemma find_concat_map:
  assumes "find Q (concat (map G ks)) = Some x"
  shows "\<exists>ks1 k ks2. ks = ks1 @ k # ks2 \<and> (\<forall>k'\<in>set ks1. \<forall>y\<in>set (G k'). \<not> Q y) \<and>
           x \<in> set (G k) \<and> Q x"
  using assms
proof (induction ks)
  case Nil
  then show ?case by simp
next
  case (Cons k ks)
  show ?case
  proof (cases "find Q (G k)")
    case None
    then have no: "\<forall>y\<in>set (G k). \<not> Q y" by (auto simp add: find_None_iff)
    from Cons.prems None have "find Q (concat (map G ks)) = Some x"
      by (simp add: find_append_cases)
    from Cons.IH [OF this] obtain ks1 k' ks2 where
      "ks = ks1 @ k' # ks2" "\<forall>k'\<in>set ks1. \<forall>y\<in>set (G k'). \<not> Q y" "x \<in> set (G k')" "Q x"
      by blast
    with no have "k # ks = (k # ks1) @ k' # ks2 \<and> (\<forall>k'\<in>set (k # ks1). \<forall>y\<in>set (G k'). \<not> Q y) \<and>
        x \<in> set (G k') \<and> Q x"
      by simp
    then show ?thesis by blast
  next
    case (Some y)
    with Cons.prems have "y = x" by (simp add: find_append_cases)
    with Some have "x \<in> set (G k) \<and> Q x" by (simp add: find_Some_mem)
    then have "k # ks = [] @ k # ks \<and> (\<forall>k'\<in>set []. \<forall>y\<in>set (G k'). \<not> Q y) \<and> x \<in> set (G k) \<and> Q x"
      by simp
    then show ?thesis by blast
  qed
qed

lemma run_len_le: "run_len a s \<le> length s"
  by (simp add: run_len_def length_takeWhile_le)

lemma run_len_extend:
  assumes "k \<le> run_len a s" and "k < length s" and "cls_match a (s ! k)"
  shows "Suc k \<le> run_len a s"
proof (rule ccontr)
  assume "\<not> Suc k \<le> run_len a s"
  with assms(1) have e: "run_len a s = k" by simp
  with assms(2) have "\<not> cls_match a (s ! k)"
    using nth_length_takeWhile [of "cls_match a" s] by (simp add: run_len_def)
  with assms(3) show False by simp
qed

lemma in_paths_Seq:
  "(g, s') \<in> set (paths (Seq r1 r2) s) \<longleftrightarrow>
     (\<exists>g1 s1 g2. (g1, s1) \<in> set (paths r1 s) \<and> (g2, s') \<in> set (paths r2 s1) \<and> g = g1 @ g2)"
  by force

lemma in_paths_Group:
  "(g, s') \<in> set (paths (Group r) s) \<longleftrightarrow>
     (\<exists>g0. (g0, s') \<in> set (paths r s) \<and> g = take (length s - length s') s # g0)"
  by force

lemma in_paths_Plus:
  "(g, s') \<in> set (paths (Plus a) s) \<longleftrightarrow> g = [] \<and> (\<exists>k. 1 \<le> k \<and> k \<le> run_len a s \<and> s' = drop k s)"
  by (auto simp add: image_iff)

lemma in_paths_Alt:
  "(g, s') \<in> set (paths (Alt ls) s) \<longleftrightarrow>
     g = [] \<and> (\<exists>l\<in>set ls. starts_with l s \<and> s' = drop (length l) s)"
  by (auto split: if_splits)

text \<open>The part of the constraint pattern after the first group.\<close>

lemma tail_paths_end:
  assumes "(g, []) \<in> set (paths (Seq (Group (Alt ls)) (Group (Plus a))) s1)"
  shows "\<exists>l r. g = [l, r] \<and> l \<in> set ls \<and> s1 = l @ r \<and> r \<noteq> [] \<and> run_len a r = length r"
proof -
  from assms obtain g1 s2 g2 where
    p1: "(g1, s2) \<in> set (paths (Group (Alt ls)) s1)" and
    p2: "(g2, []) \<in> set (paths (Group (Plus a)) s2)" and g: "g = g1 @ g2"
    unfolding in_paths_Seq by blast
  from p1 obtain l where g1: "g1 = [take (length s1 - length s2) s1]"
    and l: "l \<in> set ls" "starts_with l s1" "s2 = drop (length l) s1"
    unfolding in_paths_Group in_paths_Alt by blast
  from p2 obtain k where g2: "g2 = [take (length s2 - length ([]::string)) s2]"
    and k: "1 \<le> k" "k \<le> run_len a s2" "[] = drop k s2"
    unfolding in_paths_Group in_paths_Plus by blast
  from k(3) have "length s2 \<le> k" by simp
  with k(1,2) run_len_le [of a s2] have r: "s2 \<noteq> []" "run_len a s2 = length s2" by auto
  from l(2) have t: "take (length l) s1 = l" by (simp add: starts_with_def)
  have "length (take (length l) s1) = length l" by (simp only: t)
  then have ll: "length l \<le> length s1" by simp
  have s1: "s1 = l @ s2" using append_take_drop_id [of "length l" s1] t l(3) by simp
  have "take (length s1 - length s2) s1 = l" using l(3) ll t by simp
  with g g1 g2 have "g = [l, s2]" by simp
  with l(1) s1 r show ?thesis by blast
qed

lemma tail_paths_eq:
  assumes "r \<noteq> []" and "run_len a r = length r"
  shows "([''='', r], []) \<in>
    set (paths (Seq (Group (Alt [''<='', ''>='', ''=''])) (Group (Plus a))) (CHR ''='' # r))"
proof -
  have "([], r) \<in> set (paths (Alt [''<='', ''>='', ''='']) (CHR ''='' # r))"
    unfolding in_paths_Alt by (simp add: starts_with_def)
  then have a: "([''=''], r) \<in> set (paths (Group (Alt [''<='', ''>='', ''=''])) (CHR ''='' # r))"
    unfolding in_paths_Group by simp
  have "1 \<le> length r \<and> length r \<le> run_len a r \<and> [] = drop (length r) r"
    using assms by (cases r) auto
  then have "([], []) \<in> set (paths (Plus a) r)"
    unfolding in_paths_Plus by blast
  then have b: "([r], []) \<in> set (paths (Group (Plus a)) r)"
    unfolding in_paths_Group by simp
  from a b show ?thesis
    unfolding in_paths_Seq by force
qed

lemma paths_Plus_then:
  "paths (Seq (Group (Plus a)) R) s =
     concat (map (\<lambda>k. map (\<lambda>(g2, s2). (take k s # g2, s2)) (paths R (drop k s)))
              (rev [1 ..< Suc (run_len a s)]))"
proof -
  have "paths (Seq (Group (Plus a)) R) s =
     concat (map (\<lambda>k. map (\<lambda>(g2, s2). (take (length s - length (drop k s)) s # g2, s2))
                        (paths R (drop k s)))
              (rev [1 ..< Suc (run_len a s)]))"
    by (simp add: comp_def split_def)
  also have "\<dots> = concat (map (\<lambda>k. map (\<lambda>(g2, s2). (take k s # g2, s2)) (paths R (drop k s)))
              (rev [1 ..< Suc (run_len a s)]))"
  proof (rule arg_cong [where f = concat], rule map_cong [OF refl])
    fix k
    assume "k \<in> set (rev [1 ..< Suc (run_len a s)])"
    with run_len_le [of a s] have "k \<le> length s" by auto
    then have "length s - length (drop k s) = k" by simp
    then show "map (\<lambda>(g2, s2). (take (length s - length (drop k s)) s # g2, s2)) (paths R (drop k s)) =
               map (\<lambda>(g2, s2). (take k s # g2, s2)) (paths R (drop k s))"
      by simp
  qed
  finally show ?thesis .
qed

lemma constraint_match_operator:
  assumes "regex_match constraintPattern s = Some g"
  shows "\<exists>lhs r. g = [lhs, ''='', r]"
proof -
  let ?R = "Seq (Group (Alt [''<='', ''>='', ''=''])) (Group (Plus AnyChar))"
  let ?G = "\<lambda>k. map (\<lambda>(g2, s2). (take k s # g2, s2)) (paths ?R (drop k s))"
  let ?Q = "\<lambda>(g :: string list, s' :: string). s' = []"
  let ?N = "run_len AnyChar s"
  have "paths constraintPattern s = concat (map ?G (rev [1 ..< Suc ?N]))"
    unfolding constraintPattern_def by (rule paths_Plus_then)
  with assms obtain x where f: "find ?Q (concat (map ?G (rev [1 ..< Suc ?N]))) = Some x"
    and x: "g = fst x"
    unfolding regex_match_def by (simp only: map_option_eq_Some) blast
  from find_concat_map [OF f] obtain ks1 k ks2 where
    ks: "rev [1 ..< Suc ?N] = ks1 @ k # ks2" and
    first: "\<forall>k'\<in>set ks1. \<forall>y\<in>set (?G k'). \<not> ?Q y" and
    mem: "x \<in> set (?G k)" and e: "?Q x"
    by blast
  from e x have xg: "x = (g, [])" by (cases x) simp
  from mem have "x \<in> (\<lambda>(g2, s2). (take k s # g2, s2)) ` set (paths ?R (drop k s))"
    by (simp only: set_map)
  then obtain y where y: "y \<in> set (paths ?R (drop k s))" "x = (\<lambda>(g2, s2). (take k s # g2, s2)) y"
    by (rule imageE)
  from y(2) xg have "y = (tl g, [])" and g: "g = take k s # tl g"
    by (cases y; simp)+
  with y(1) have t: "(tl g, []) \<in> set (paths ?R (drop k s))" by simp
  from tail_paths_end [OF t] obtain l r where
    lr: "tl g = [l, r]" "l \<in> set [''<='', ''>='', ''='']" "drop k s = l @ r" "r \<noteq> []"
      "run_len AnyChar r = length r"
    by blast
  have "l = ''=''"
  proof (rule ccontr)
    assume "l \<noteq> ''=''"
    with lr(2) have "l = [CHR ''<'', CHR ''=''] \<or> l = [CHR ''>'', CHR ''='']"
      by simp
    then obtain c where c: "l = [c, CHR ''='']" "cls_match AnyChar c"
      by auto
    with lr(3) have d: "drop k s = c # CHR ''='' # r" by simp
    then have kl: "k < length s" by (cases "k < length s") simp_all
    from d have sk: "s ! k = c" and d': "drop (Suc k) s = CHR ''='' # r"
      using Cons_nth_drop_Suc [OF kl] by simp_all
    have "k \<in> set (rev [1 ..< Suc ?N])" unfolding ks by simp
    then have k: "k \<le> ?N" by (simp only: set_rev set_upt) simp
    from run_len_extend [OF k kl] sk c(2) have "Suc k \<le> ?N" by simp
    then have "Suc k \<in> set (rev [1 ..< Suc ?N])" by (simp only: set_rev set_upt) simp
    then have "Suc k \<in> set ks1 \<or> Suc k \<in> set ks2" unfolding ks by auto
    moreover have "\<forall>x\<in>set ks2. x \<le> k"
    proof -
      have "rev (rev [1 ..< Suc ?N]) = rev (ks1 @ k # ks2)" by (simp only: ks)
      then have eq: "[1 ..< Suc ?N] = rev ks2 @ k # rev ks1" by (simp only: rev_rev_ident rev_append rev.simps append.simps append_assoc)
      have "sorted (rev ks2 @ k # rev ks1)"
        unfolding eq [symmetric] by (rule sorted_upt)
      then show ?thesis by (simp add: sorted_append)
    qed
    ultimately have "Suc k \<in> set ks1" by auto
    with first have no: "\<forall>y\<in>set (?G (Suc k)). \<not> ?Q y" by blast
    from tail_paths_eq [OF lr(4,5)] d'
    have "([''='', r], []) \<in> set (paths ?R (drop (Suc k) s))" by (simp only:)
    then have "(\<lambda>(g2, s2). (take (Suc k) s # g2, s2)) ([''='', r], []) \<in>
        (\<lambda>(g2, s2). (take (Suc k) s # g2, s2)) ` set (paths ?R (drop (Suc k) s))"
      by (rule imageI)
    then have "(take (Suc k) s # [''='', r], []) \<in> set (?G (Suc k))"
      by (simp only: set_map prod.case)
    moreover have "?Q (take (Suc k) s # [''='', r], [])" by simp
    ultimately show False using no by blast
  qed
  with g lr(1) show ?thesis by simp
qed

lemma parseConstraint_operator:
  assumes "parseConstraint s n = Inr c"
  shows "op c = ''=''"
proof -
  from assms obtain g where g: "regex_match constraintPattern s = Some g"
    by (cases "regex_match constraintPattern s") (auto simp add: parseConstraint_def)
  from constraint_match_operator [OF g] obtain lhs r where "g = [lhs, ''='', r]" by blast
  with assms g show ?thesis
    by (auto simp add: parseConstraint_def split: sum.splits)
qed

text \<open>
  A match has one text for each capture group of its pattern, so the readers take their
  error branch for a malformed line only when the pattern does not match; and an error of
  \<open>stod\<close> is one of its own two exceptions.
\<close>

lemma paths_groups: "(g, s') \<in> set (paths r s) \<Longrightarrow> length g = ngroups r"
proof (induction r arbitrary: g s' s)
  case (Seq r1 r2)
  from Seq.prems obtain g1 s1 g2 where
    "(g1, s1) \<in> set (paths r1 s)" "(g2, s') \<in> set (paths r2 s1)" "g = g1 @ g2"
    unfolding in_paths_Seq by blast
  with Seq.IH(1) [of g1 s1 s] Seq.IH(2) [of g2 s' s1] show ?case by simp
next
  case (Group r)
  from Group.prems obtain g0 where "(g0, s') \<in> set (paths r s)" "g = take (length s - length s') s # g0"
    unfolding in_paths_Group by blast
  with Group.IH [of g0 s' s] show ?case by simp
qed (auto split: list.splits if_splits)

lemma regex_match_groups:
  assumes "regex_match r s = Some g"
  shows "length g = ngroups r"
proof -
  from assms obtain x where "find (\<lambda>(g, s'). s' = []) (paths r s) = Some x" "g = fst x"
    unfolding regex_match_def by (simp only: map_option_eq_Some) blast
  then have "(g, snd x) \<in> set (paths r s)"
    using find_Some_mem [of "\<lambda>(g, s'). s' = []" "paths r s" x] by simp
  then show ?thesis by (rule paths_groups)
qed

lemma term_match_groups: "regex_match termPattern token = Some g \<Longrightarrow> \<exists>coeffStr var. g = [coeffStr, var]"
proof -
  assume "regex_match termPattern token = Some g"
  then have "length g = 2"
    using regex_match_groups [of termPattern token g] by (simp add: termPattern_def)
  then show ?thesis
    by (cases g; cases "tl g") auto
qed

lemma stod_error: "stod s = Inl e \<Longrightarrow> e = StodInvalidArgument \<or> e = StodOutOfRange"
  by (auto simp add: stod_def Let_def to_double_def split: if_splits option.splits)

lemma parseTerm_no_match:
  "regex_match termPattern token = None \<Longrightarrow> parseTerm token line = Inl (InvalidTermFormat line token)"
  by (simp add: parseTerm_def)

lemma parseTerm_match_error:
  assumes "regex_match termPattern token = Some g" and "parseTerm token line = Inl e"
  shows "e = StodInvalidArgument \<or> e = StodOutOfRange"
proof -
  from term_match_groups [OF assms(1)] obtain coeffStr var where g: "g = [coeffStr, var]" by blast
  with assms have "stod coeffStr = Inl e"
    by (auto simp add: parseTerm_def split: if_splits sum.splits)
  then show ?thesis by (rule stod_error)
qed

lemma parseConstraint_rhs_error:
  assumes "regex_match constraintPattern lineStr = Some [lhs, opr, rhsStr]"
    and "parseExpression lhs line = Inr ts" and "stod rhsStr = Inl e"
  shows "parseConstraint lineStr line = Inl e \<and> error_line e = None"
  using assms stod_error [OF assms(3)]
  by (auto simp add: parseConstraint_def)

text \<open>No match of the token pattern is empty: the last case of \<open>sregex_all\<close> is never taken for it.\<close>

lemma paths_length: "(g, s') \<in> set (paths r s) \<Longrightarrow> length s' \<le> length s"
proof (induction r arbitrary: g s' s)
  case (Seq r1 r2)
  from Seq.prems obtain g1 s1 g2 where
    "(g1, s1) \<in> set (paths r1 s)" "(g2, s') \<in> set (paths r2 s1)"
    unfolding in_paths_Seq by blast
  with Seq.IH [of g1 s1 s] Seq.IH(2) [of g2 s' s1] show ?case by simp
next
  case (Group r)
  then show ?case unfolding in_paths_Group by blast
qed (auto split: list.splits if_splits)

lemma paths_nonempty: "nonempty_only r \<Longrightarrow> (g, s') \<in> set (paths r s) \<Longrightarrow> length s' < length s"
proof (induction r arbitrary: g s' s)
  case (One a)
  then show ?case by (cases s) (auto split: if_splits)
next
  case (Plus a)
  from Plus.prems(2) obtain k where k: "1 \<le> k" "k \<le> run_len a s" "s' = drop k s"
    unfolding in_paths_Plus by blast
  with run_len_le [of a s] show ?case by simp
next
  case (Alt ls)
  from Alt.prems(2) obtain l where l: "l \<in> set ls" "starts_with l s" "s' = drop (length l) s"
    unfolding in_paths_Alt by blast
  from l(1) Alt.prems(1) have "l \<noteq> []" by auto
  moreover from l(2) have "take (length l) s = l" by (simp add: starts_with_def)
  ultimately have "s \<noteq> []" by auto
  with l(3) \<open>l \<noteq> []\<close> show ?case by simp
next
  case (Seq r1 r2)
  from Seq.prems(2) obtain g1 s1 g2 where
    p: "(g1, s1) \<in> set (paths r1 s)" "(g2, s') \<in> set (paths r2 s1)"
    unfolding in_paths_Seq by blast
  from p have le: "length s1 \<le> length s" "length s' \<le> length s1"
    by (auto dest: paths_length)
  from Seq.prems(1) have "nonempty_only r1 \<or> nonempty_only r2" by simp
  then show ?case
  proof
    assume "nonempty_only r1"
    from Seq.IH(1) [OF this p(1)] le show ?thesis by simp
  next
    assume "nonempty_only r2"
    from Seq.IH(2) [OF this p(2)] le show ?thesis by simp
  qed
next
  case (Group r)
  then show ?case unfolding in_paths_Group by auto
qed simp_all

lemma token_match_nonempty:
  assumes "(g, s') \<in> set (paths tokenPattern s)"
  shows "length s' < length s"
proof -
  have "nonempty_only tokenPattern" by (simp add: tokenPattern_def)
  then show ?thesis using assms by (rule paths_nonempty)
qed


section \<open>Evaluation on the inputs of the properties\<close>

lemma not_range_error: "1 \<le> \<bar>v\<bar> \<Longrightarrow> \<bar>v\<bar> \<le> 1000 \<Longrightarrow> \<not> range_error v"
  unfolding range_error_def by auto

lemma not_range_error_0: "\<not> range_error 0"
  unfolding range_error_def by simp

lemmas stod_defs = stod_def is_space_def to_lower_def in_range_def dec_float_def mantissa_def
  is_digit_def exponent_def dec_nat_def digit_val_def pow_int_def to_double_def not_range_error
  not_range_error_0

lemma stod_values:
  "stod ''3'' = Inr (Finite 3)" "stod ''+2'' = Inr (Finite 2)" "stod '' 10'' = Inr (Finite 10)"
  "stod ''2'' = Inr (Finite 2)" "stod ''8'' = Inr (Finite 8)" "stod ''5'' = Inr (Finite 5)"
  "stod ''0'' = Inr (Finite 0)"
  by (simp_all add: stod_defs)

lemma stod_failures:
  "stod ''.'' = Inl StodInvalidArgument" "stod '' abc'' = Inl StodInvalidArgument"
  by (simp_all add: stod_defs)

lemma term_matches:
  "regex_match termPattern ''3x'' = Some [''3'', ''x'']"
  "regex_match termPattern ''+2y'' = Some [''+2'', ''y'']"
  "regex_match termPattern ''x'' = Some ['''', ''x'']"
  "regex_match termPattern ''+y'' = Some [''+'', ''y'']"
  "regex_match termPattern ''.x'' = Some [''.'', ''x'']"
  by code_simp+

lemma token_matches:
  "sregex_all tokenPattern ''3x + 2y'' = [''3x'', ''+ 2y'']"
  "sregex_all tokenPattern ''x + y <'' = [''x'', ''+ y'']"
  "sregex_all tokenPattern ''x + y >'' = [''x'', ''+ y'']"
  "sregex_all tokenPattern ''x + y '' = [''x'', ''+ y'']"
  "sregex_all tokenPattern ''x <= 5 <'' = [''x'']"
  "sregex_all tokenPattern ''x <'' = [''x'']"
  "sregex_all tokenPattern ''x'' = [''x'']"
  "sregex_all tokenPattern ''.x'' = [''.x'']"
  by code_simp+

lemma remove_spaces_values:
  "remove_spaces ''3x'' = ''3x''" "remove_spaces ''+ 2y'' = ''+2y''"
  "remove_spaces ''x'' = ''x''" "remove_spaces ''+ y'' = ''+y''" "remove_spaces ''.x'' = ''.x''"
  by code_simp+

lemma parseTerm_values:
  "parseTerm ''3x'' n = Inr \<lparr>coefficient = Finite 3, variable = ''x''\<rparr>"
  "parseTerm ''+2y'' n = Inr \<lparr>coefficient = Finite 2, variable = ''y''\<rparr>"
  "parseTerm ''x'' n = Inr \<lparr>coefficient = Finite 1, variable = ''x''\<rparr>"
  "parseTerm ''+y'' n = Inr \<lparr>coefficient = Finite 1, variable = ''y''\<rparr>"
  "parseTerm ''.x'' n = Inl StodInvalidArgument"
  by (simp_all add: parseTerm_def term_matches stod_values stod_failures)

lemma parseExpression_values:
  "parseExpression ''3x + 2y'' n =
     Inr [\<lparr>coefficient = Finite 3, variable = ''x''\<rparr>, \<lparr>coefficient = Finite 2, variable = ''y''\<rparr>]"
  "parseExpression ''x + y <'' n =
     Inr [\<lparr>coefficient = Finite 1, variable = ''x''\<rparr>, \<lparr>coefficient = Finite 1, variable = ''y''\<rparr>]"
  "parseExpression ''x + y >'' n =
     Inr [\<lparr>coefficient = Finite 1, variable = ''x''\<rparr>, \<lparr>coefficient = Finite 1, variable = ''y''\<rparr>]"
  "parseExpression ''x + y '' n =
     Inr [\<lparr>coefficient = Finite 1, variable = ''x''\<rparr>, \<lparr>coefficient = Finite 1, variable = ''y''\<rparr>]"
  "parseExpression ''x <= 5 <'' n = Inr [\<lparr>coefficient = Finite 1, variable = ''x''\<rparr>]"
  "parseExpression ''x <'' n = Inr [\<lparr>coefficient = Finite 1, variable = ''x''\<rparr>]"
  "parseExpression ''x'' n = Inr [\<lparr>coefficient = Finite 1, variable = ''x''\<rparr>]"
  "parseExpression ''.x'' n = Inl StodInvalidArgument"
  by (simp_all add: parseExpression_def token_matches remove_spaces_values parseTerm_values)

lemma constraint_matches:
  "regex_match constraintPattern ''x + y <= 10'' = Some [''x + y <'', ''='', '' 10'']"
  "regex_match constraintPattern ''x <= 5 <= 10'' = Some [''x <= 5 <'', ''='', '' 10'']"
  "regex_match constraintPattern ''x <= abc'' = Some [''x <'', ''='', '' abc'']"
  "regex_match constraintPattern ''x + y >= 10'' = Some [''x + y >'', ''='', '' 10'']"
  "regex_match constraintPattern ''x + y = 10'' = Some [''x + y '', ''='', '' 10'']"
  by code_simp+

lemma parseConstraint_values:
  "parseConstraint ''x + y <= 10'' n =
     Inr \<lparr>terms = [\<lparr>coefficient = Finite 1, variable = ''x''\<rparr>,
                  \<lparr>coefficient = Finite 1, variable = ''y''\<rparr>],
          rhs = Finite 10, op = ''='', lineNumber = n\<rparr>"
  "parseConstraint ''x <= 5 <= 10'' n =
     Inr \<lparr>terms = [\<lparr>coefficient = Finite 1, variable = ''x''\<rparr>],
          rhs = Finite 10, op = ''='', lineNumber = n\<rparr>"
  "parseConstraint ''x <= abc'' n = Inl StodInvalidArgument"
  "parseConstraint ''x + y >= 10'' n =
     Inr \<lparr>terms = [\<lparr>coefficient = Finite 1, variable = ''x''\<rparr>,
                  \<lparr>coefficient = Finite 1, variable = ''y''\<rparr>],
          rhs = Finite 10, op = ''='', lineNumber = n\<rparr>"
  "parseConstraint ''x + y = 10'' n =
     Inr \<lparr>terms = [\<lparr>coefficient = Finite 1, variable = ''x''\<rparr>,
                  \<lparr>coefficient = Finite 1, variable = ''y''\<rparr>],
          rhs = Finite 10, op = ''='', lineNumber = n\<rparr>"
  by (simp_all add: parseConstraint_def constraint_matches parseExpression_values stod_values
      stod_failures)

lemma line_values:
  "getlines ''3x + 2y'' (CHR 0x0A) = [''3x + 2y'']"
  "getlines ''.x'' (CHR 0x0A) = [''.x'']"
  "getlines ''x\<newline>x <= 5 <= 10'' (CHR 0x0A) = [''x'', ''x <= 5 <= 10'']"
  "getlines ''x\<newline>x <= abc'' (CHR 0x0A) = [''x'', ''x <= abc'']"
  "trim ''3x + 2y'' = ''3x + 2y''" "trim ''.x'' = ''.x''" "trim ''x'' = ''x''"
  "trim ''x <= 5 <= 10'' = ''x <= 5 <= 10''" "trim ''x <= abc'' = ''x <= abc''"
  by code_simp+

lemma comment_values:
  "\<not> starts_with ''//'' ''3x + 2y''" "\<not> starts_with ''//'' ''.x''" "\<not> starts_with ''//'' ''x''"
  "\<not> starts_with ''//'' ''x <= 5 <= 10''" "\<not> starts_with ''//'' ''x <= abc''"
  by code_simp+

lemmas parse_eval = parseStream_def initial_state_def new_LPModel_def loopBody_def Let_def
  isBlank_def line_values comment_values parseExpression_values parseConstraint_values

lemma bounds_lines:
  "getlines ''Max\<newline>Bounds:\<newline>x free\<newline>y >= 2\<newline>y <= 8\<newline>'' (CHR 0x0A) =
     [''Max'', ''Bounds:'', ''x free'', ''y >= 2'', ''y <= 8'']"
  "getlines ''Max\<newline>Bounds:\<newline>z = 5\<newline>'' (CHR 0x0A) = [''Max'', ''Bounds:'', ''z = 5'']"
  "getlines ''Max\<newline>Bounds:\<newline>freedom >= 3\<newline>'' (CHR 0x0A) = [''Max'', ''Bounds:'', ''freedom >= 3'']"
  "trim ''x free'' = ''x free''" "trim ''y >= 2'' = ''y >= 2''" "trim ''y <= 8'' = ''y <= 8''"
  "trim ''z = 5'' = ''z = 5''" "trim ''freedom >= 3'' = ''freedom >= 3''"
  "trim ''x '' = ''x''" "trim [] = []"
  "\<not> starts_with ''//'' ''Max''" "\<not> starts_with ''//'' ''Bounds:''"
  "\<not> starts_with ''//'' ''x free''" "\<not> starts_with ''//'' ''y >= 2''"
  "\<not> starts_with ''//'' ''y <= 8''" "\<not> starts_with ''//'' ''z = 5''"
  "\<not> starts_with ''//'' ''freedom >= 3''"
  "find_str ''x free'' ''free'' = Some 2" "find_str ''y >= 2'' ''free'' = None"
  "find_str ''y <= 8'' ''free'' = None" "find_str ''z = 5'' ''free'' = None"
  "find_str ''freedom >= 3'' ''free'' = Some 0"
  "regex_match boundPattern ''y >= 2'' = Some [''y'', ''>='', ''2'']"
  "regex_match boundPattern ''y <= 8'' = Some [''y'', ''<='', ''8'']"
  "regex_match boundPattern ''z = 5'' = Some [''z'', ''='', ''5'']"
  by code_simp+

lemmas bounds_eval = parseStream_def initial_state_def new_LPModel_def loopBody_def Let_def
  isBlank_def trim_consts bounds_lines boundLine_def bounds_ref_def default_Bound_def INFINITY_def
  stod_values bound_of_def


section \<open>The properties\<close>

subsection \<open>C1: the example input of the specification\<close>

lemma example_lines:
  "getlines ''3x + 2y\<newline>x + y <= 10\<newline>'' (CHR 0x0A) = [''3x + 2y'', ''x + y <= 10'']"
  "trim ''x + y <= 10'' = ''x + y <= 10''" "\<not> starts_with ''//'' ''x + y <= 10''"
  by code_simp+

text \<open>
  C1. On the input \<^verbatim>\<open>"Max\n3x + 2y\nx + y <= 10\n"\<close> the parser does not return a model: the
  direction line sets \<^verbatim>\<open>objectiveParsed\<close>, so the second line is not read as the
  objective, and with no section open it is rejected as an unexpected line, at line 2.
  The same objective and constraint lines without the direction line are accepted, with the
  terms in order. In general no input with a direction line gives a model with an
  objective term or a constraint.
\<close>

theorem example_input_rejected:
  "parseStream t0 l0 ''Max\<newline>3x + 2y\<newline>x + y <= 10\<newline>'' = Inl (UnexpectedLine 2) \<and>
   parseStream t0 l0 ''3x + 2y\<newline>x + y <= 10\<newline>'' =
     Inr \<lparr>type = t0,
          objective = \<lparr>terms = [\<lparr>coefficient = Finite 3, variable = ''x''\<rparr>,
                                 \<lparr>coefficient = Finite 2, variable = ''y''\<rparr>],
                        rhs = Finite 0, op = [], lineNumber = 1\<rparr>,
          constraints = [\<lparr>terms = [\<lparr>coefficient = Finite 1, variable = ''x''\<rparr>,
                                    \<lparr>coefficient = Finite 1, variable = ''y''\<rparr>],
                           rhs = Finite 10, op = ''='', lineNumber = 2\<rparr>],
          bounds = Map.empty\<rparr> \<and>
   (\<forall>content m.
      (\<exists>l\<in>set (getlines content (CHR 0x0A)). isDirection l) \<and>
      parseStream t0 l0 content = Inr m \<longrightarrow>
      terms (objective m) = [] \<and> constraints m = [])"
proof -
  have "case parseStream t0 l0 ''Max\<newline>3x + 2y\<newline>x + y <= 10\<newline>'' of
          Inl e \<Rightarrow> e = UnexpectedLine 2 | Inr _ \<Rightarrow> False"
    by code_simp
  then have "parseStream t0 l0 ''Max\<newline>3x + 2y\<newline>x + y <= 10\<newline>'' = Inl (UnexpectedLine 2)"
    by (rule sum_is_Inl)
  moreover have "parseStream t0 l0 ''3x + 2y\<newline>x + y <= 10\<newline>'' =
     Inr \<lparr>type = t0,
          objective = \<lparr>terms = [\<lparr>coefficient = Finite 3, variable = ''x''\<rparr>,
                                 \<lparr>coefficient = Finite 2, variable = ''y''\<rparr>],
                        rhs = Finite 0, op = [], lineNumber = 1\<rparr>,
          constraints = [\<lparr>terms = [\<lparr>coefficient = Finite 1, variable = ''x''\<rparr>,
                                    \<lparr>coefficient = Finite 1, variable = ''y''\<rparr>],
                           rhs = Finite 10, op = ''='', lineNumber = 2\<rparr>],
          bounds = Map.empty\<rparr>"
    by (simp add: parse_eval example_lines)
  ultimately show ?thesis
    using direction_excludes_objective by blast
qed

text \<open>
  The input \<^verbatim>\<open>"Max\nBounds:\nx free\n"\<close> has a direction line and is parsed: its model has
  no objective term and no constraint.
\<close>

theorem example_input_rejected_witness:
  "\<exists>m. parseStream MAXIMIZE 0 ''Max\<newline>Bounds:\<newline>x free\<newline>'' = Inr m \<and>
     (\<exists>l\<in>set (getlines ''Max\<newline>Bounds:\<newline>x free\<newline>'' (CHR 0x0A)). isDirection l) \<and>
     terms (objective m) = [] \<and> constraints m = []"
proof -
  let ?c = "''Max\<newline>Bounds:\<newline>x free\<newline>''"
  have "case parseStream MAXIMIZE 0 ?c of Inl _ \<Rightarrow> False | Inr _ \<Rightarrow> True"
    by code_simp
  then obtain m where m: "parseStream MAXIMIZE 0 ?c = Inr m"
    using sum_is_Inr by blast
  have "getlines ?c (CHR 0x0A) = [''Max'', ''Bounds:'', ''x free'']" "isDirection ''Max''"
    by code_simp+
  then have d: "\<exists>l\<in>set (getlines ?c (CHR 0x0A)). isDirection l"
    by simp
  from example_input_rejected [of MAXIMIZE 0] m d
  have "terms (objective m) = [] \<and> constraints m = []"
    by blast
  with m d show ?thesis by blast
qed


subsection \<open>C2: the operator of a constraint\<close>

text \<open>
  C2. The constraint reader does not split \<^verbatim>\<open>x + y <= 10\<close> at its operator \<^verbatim>\<open><=\<close>: the
  greedy \<^verbatim>\<open>(.+)\<close> takes the \<^verbatim>\<open><\<close> as well, the operator returned is \<^verbatim>\<open>=\<close>, and the terms are
  read from \<^verbatim>\<open>x + y <\<close>. The right-hand side is the number after the operator. In general,
  whatever line the constraint reader accepts, the operator it returns is \<^verbatim>\<open>=\<close>, never
  \<^verbatim>\<open><=\<close> or \<^verbatim>\<open>>=\<close>.
\<close>

theorem constraint_operator:
  "parseConstraint ''x + y <= 10'' n =
     Inr \<lparr>terms = [\<lparr>coefficient = Finite 1, variable = ''x''\<rparr>,
                  \<lparr>coefficient = Finite 1, variable = ''y''\<rparr>],
          rhs = Finite 10, op = ''='', lineNumber = n\<rparr> \<and>
   regex_match constraintPattern ''x + y <= 10'' = Some [''x + y <'', ''='', '' 10''] \<and>
   (\<forall>lineStr line c. parseConstraint lineStr line = Inr c \<longrightarrow> op c = ''='')"
  using parseConstraint_operator
  by (simp add: parseConstraint_values constraint_matches)

text \<open>The line \<^verbatim>\<open>x + y >= 10\<close>: it is read, and the operator returned is \<^verbatim>\<open>=\<close>.\<close>

theorem constraint_operator_witness:
  "\<exists>c. parseConstraint ''x + y >= 10'' 2 = Inr c \<and> op c = ''='' \<and> rhs c = Finite 10"
proof -
  obtain c where c: "parseConstraint ''x + y >= 10'' 2 = Inr c" and r: "rhs c = Finite 10"
    by (simp add: parseConstraint_values)
  from constraint_operator [of 0] c have "op c = ''=''"
    by blast
  with c r show ?thesis by blast
qed


subsection \<open>C3: variables without a bound\<close>

lemma undeclared_lines:
  "getlines ''3x + 2y\<newline>x + y = 10\<newline>Bounds:\<newline>x >= 0\<newline>'' (CHR 0x0A) =
     [''3x + 2y'', ''x + y = 10'', ''Bounds:'', ''x >= 0'']"
  "trim ''x + y = 10'' = ''x + y = 10''" "\<not> starts_with ''//'' ''x + y = 10''"
  "trim ''x >= 0'' = ''x >= 0''" "\<not> starts_with ''//'' ''x >= 0''"
  "\<not> starts_with ''//'' ''Bounds:''"
  "find_str ''x >= 0'' ''free'' = None"
  "regex_match boundPattern ''x >= 0'' = Some [''x'', ''>='', ''0'']"
  by code_simp+

text \<open>
  C3, as stated, fails on the input \<^verbatim>\<open>"3x + 2y\nx + y = 10\nBounds:\nx >= 0\n"\<close>: it is
  parsed, its objective names \<open>x\<close> and \<open>y\<close>, the variable \<open>x\<close> of the \<^verbatim>\<open>Bounds:\<close> section
  has an entry in the bounds map and \<open>y\<close> has none, and \<^verbatim>\<open>loadModel\<close> throws at its
  lookup of \<open>y\<close>.
\<close>

theorem undeclared_variable_has_no_bound:
  "map_sum id (map variable \<circ> terms \<circ> objective)
     (parseStream MAXIMIZE 0 ''3x + 2y\<newline>x + y = 10\<newline>Bounds:\<newline>x >= 0\<newline>'') =
     Inr [''x'', ''y''] \<and>
   map_sum id (bound_of ''x'')
     (parseStream MAXIMIZE 0 ''3x + 2y\<newline>x + y = 10\<newline>Bounds:\<newline>x >= 0\<newline>'') =
     Inr (Some \<lparr>lower = Finite 0, upper = PosInf, isFree = False, vtype = CONTINUOUS\<rparr>) \<and>
   map_sum id (bound_of ''y'')
     (parseStream MAXIMIZE 0 ''3x + 2y\<newline>x + y = 10\<newline>Bounds:\<newline>x >= 0\<newline>'') =
     Inr None \<and>
   map_sum id loadModel
     (parseStream MAXIMIZE 0 ''3x + 2y\<newline>x + y = 10\<newline>Bounds:\<newline>x >= 0\<newline>'') =
     Inr (Inl MapAtOutOfRange)"
  by (simp add: parse_eval undeclared_lines trim_consts boundLine_def bounds_ref_def
      default_Bound_def INFINITY_def stod_values bound_of_def loadModel_def)

text \<open>
  C3, amended. Entries of the bounds map are made only by the lines of a \<^verbatim>\<open>Bounds:\<close>,
  \<^verbatim>\<open>Integer:\<close> or \<^verbatim>\<open>Binary:\<close> section, never for a variable of the objective or of a
  constraint: when no line of a successfully parsed input is one of the three headers, the
  bounds map of the model is empty, so that no variable of the objective or of a constraint
  has an entry for the lookup by name of the solver.
\<close>

theorem no_default_bounds:
  assumes "\<forall>l\<in>set (getlines content (CHR 0x0A)). \<not> isHeader l"
    and "parseStream t0 l0 content = Inr m"
  shows "bounds m = Map.empty \<and>
         (\<forall>t\<in>set (terms (objective m)). bound_of (variable t) m = None) \<and>
         (\<forall>c\<in>set (constraints m). \<forall>t\<in>set (terms c). bound_of (variable t) m = None)"
proof -
  from assms(2) obtain st where st: "parseLines (initial_state t0 l0) (getlines content (CHR 0x0A)) = Inr st"
    and m: "m = model st"
    unfolding parseStream_def by (auto split: sum.splits)
  have "bounds (model st) = bounds (model (initial_state t0 l0))"
    using st assms(1) by (rule parseLines_no_header) (simp add: initial_state_def)
  then have e: "bounds m = Map.empty"
    using m by (simp add: initial_state_def new_LPModel_def)
  then show ?thesis by (simp add: bound_of_def)
qed

text \<open>The input \<^verbatim>\<open>"3x + 2y"\<close>: parsed, with two terms in the objective and no bound.\<close>

theorem no_default_bounds_witness:
  "\<not> isHeader ''3x + 2y'' \<and>
   (\<exists>m. parseStream MINIMIZE 0 ''3x + 2y'' = Inr m \<and>
        map variable (terms (objective m)) = [''x'', ''y''] \<and>
        bounds m = Map.empty \<and> bound_of ''x'' m = None \<and> bound_of ''y'' m = None)"
proof -
  let ?m = "\<lparr>type = MINIMIZE,
             objective = \<lparr>terms = [\<lparr>coefficient = Finite 3, variable = ''x''\<rparr>,
                                    \<lparr>coefficient = Finite 2, variable = ''y''\<rparr>],
                           rhs = Finite 0, op = [], lineNumber = 1\<rparr>,
             constraints = [], bounds = Map.empty\<rparr>"
  have h: "\<not> isHeader ''3x + 2y''"
    by (simp add: isHeader_def line_values)
  then have hs: "\<forall>l\<in>set (getlines ''3x + 2y'' (CHR 0x0A)). \<not> isHeader l"
    by (simp add: line_values)
  have p: "parseStream MINIMIZE 0 ''3x + 2y'' = Inr ?m"
    by (simp add: parse_eval)
  have "bounds ?m = Map.empty \<and>
         (\<forall>t\<in>set (terms (objective ?m)). bound_of (variable t) ?m = None) \<and>
         (\<forall>c\<in>set (constraints ?m). \<forall>t\<in>set (terms c). bound_of (variable t) ?m = None)"
    using hs p by (rule no_default_bounds)
  then have "map variable (terms (objective ?m)) = [''x'', ''y''] \<and> bounds ?m = Map.empty \<and>
      bound_of ''x'' ?m = None \<and> bound_of ''y'' ?m = None"
    by simp
  with p have "\<exists>m. parseStream MINIMIZE 0 ''3x + 2y'' = Inr m \<and>
        map variable (terms (objective m)) = [''x'', ''y''] \<and>
        bounds m = Map.empty \<and> bound_of ''x'' m = None \<and> bound_of ''y'' m = None"
    by (intro exI [of _ ?m] conjI) simp_all
  with h show ?thesis by (rule conjI)
qed


subsection \<open>C4: malformed constraint lines\<close>

text \<open>
  C4. A constraint line whose right-hand side is not a number does not fail with a
  line-numbered error: \<^verbatim>\<open>x <= abc\<close> at line 2 ends the parse with the
  \<^verbatim>\<open>invalid_argument\<close> of \<^verbatim>\<open>std::stod\<close>, which holds no line. A constraint line with two
  comparison operators does not fail at all: \<^verbatim>\<open>x <= 5 <= 10\<close> is accepted as the
  constraint \<^verbatim>\<open>x = 10\<close>. In general, when the constraint pattern matches a line and the text
  before the operator is an expression, a right-hand side that \<^verbatim>\<open>std::stod\<close> refuses makes
  the reader fail with the exception of \<^verbatim>\<open>std::stod\<close>, which holds no line.
\<close>

theorem constraint_line_errors:
  "parseStream t0 l0 ''x\<newline>x <= abc'' = Inl StodInvalidArgument \<and>
   error_line StodInvalidArgument = None \<and>
   map_sum id constraints (parseStream t0 l0 ''x\<newline>x <= 5 <= 10'') =
     Inr [\<lparr>terms = [\<lparr>coefficient = Finite 1, variable = ''x''\<rparr>],
           rhs = Finite 10, op = ''='', lineNumber = 2\<rparr>] \<and>
   (\<forall>lineStr line lhs opr rhsStr ts e.
      regex_match constraintPattern lineStr = Some [lhs, opr, rhsStr] \<and>
      parseExpression lhs line = Inr ts \<and> stod rhsStr = Inl e \<longrightarrow>
      parseConstraint lineStr line = Inl e \<and> error_line e = None)"
  using parseConstraint_rhs_error
  by (simp add: parse_eval) blast

text \<open>The line \<^verbatim>\<open>x <= abc\<close> as line 2: the error of the reader holds no line.\<close>

theorem constraint_line_errors_witness:
  "regex_match constraintPattern ''x <= abc'' = Some [''x <'', ''='', '' abc''] \<and>
   parseExpression ''x <'' 2 = Inr [\<lparr>coefficient = Finite 1, variable = ''x''\<rparr>] \<and>
   stod '' abc'' = Inl StodInvalidArgument \<and>
   parseConstraint ''x <= abc'' 2 = Inl StodInvalidArgument \<and>
   error_line StodInvalidArgument = None"
proof -
  have h: "regex_match constraintPattern ''x <= abc'' = Some [''x <'', ''='', '' abc'']"
    "parseExpression ''x <'' 2 = Inr [\<lparr>coefficient = Finite 1, variable = ''x''\<rparr>]"
    "stod '' abc'' = Inl StodInvalidArgument"
    by (simp_all add: constraint_matches parseExpression_values stod_failures)
  have "\<forall>lineStr line lhs opr rhsStr ts e.
      regex_match constraintPattern lineStr = Some [lhs, opr, rhsStr] \<and>
      parseExpression lhs line = Inr ts \<and> stod rhsStr = Inl e \<longrightarrow>
      parseConstraint lineStr line = Inl e \<and> error_line e = None"
    using constraint_line_errors [of MAXIMIZE 0] by blast
  with h have "parseConstraint ''x <= abc'' 2 = Inl StodInvalidArgument \<and>
      error_line StodInvalidArgument = None"
    by blast
  with h show ?thesis by blast
qed


subsection \<open>C5: the term reader\<close>

text \<open>
  C5. The token \<^verbatim>\<open>.x\<close>, a lone point as coefficient, is not refused with a line-numbered
  error: the term pattern matches it with the coefficient text \<^verbatim>\<open>.\<close>, and \<^verbatim>\<open>std::stod\<close>
  throws its \<^verbatim>\<open>invalid_argument\<close>, which holds neither the line nor the token; the
  objective line \<^verbatim>\<open>.x\<close> ends the parse with it. A token with no identifier is refused with
  the line and the token, and the coefficients of \<^verbatim>\<open>3x\<close>, \<^verbatim>\<open>x\<close>, \<^verbatim>\<open>+y\<close> and \<^verbatim>\<open>-x\<close> are
  3, 1, 1 and -1. In general a token that the term pattern does not match is refused with
  the line and the token, and every failure on a token that it matches is one of the two
  exceptions of \<^verbatim>\<open>std::stod\<close>.
\<close>

theorem term_reader_lone_point:
  "parseTerm ''.x'' n = Inl StodInvalidArgument \<and>
   parseStream t0 l0 ''.x'' = Inl StodInvalidArgument \<and>
   parseTerm ''3'' n = Inl (InvalidTermFormat n ''3'') \<and>
   parseTerm ''3x'' n = Inr \<lparr>coefficient = Finite 3, variable = ''x''\<rparr> \<and>
   parseTerm ''x'' n = Inr \<lparr>coefficient = Finite 1, variable = ''x''\<rparr> \<and>
   parseTerm ''+y'' n = Inr \<lparr>coefficient = Finite 1, variable = ''y''\<rparr> \<and>
   parseTerm ''-x'' n = Inr \<lparr>coefficient = Finite (- 1), variable = ''x''\<rparr> \<and>
   (\<forall>token line. regex_match termPattern token = None \<longrightarrow>
      parseTerm token line = Inl (InvalidTermFormat line token)) \<and>
   (\<forall>token line g e. regex_match termPattern token = Some g \<and> parseTerm token line = Inl e \<longrightarrow>
      e = StodInvalidArgument \<or> e = StodOutOfRange)"
proof -
  have "regex_match termPattern ''3'' = None" "regex_match termPattern ''-x'' = Some [''-'', ''x'']"
    by code_simp+
  then have "parseTerm ''3'' n = Inl (InvalidTermFormat n ''3'')"
    "parseTerm ''-x'' n = Inr \<lparr>coefficient = Finite (- 1), variable = ''x''\<rparr>"
    by (simp_all add: parseTerm_def)
  then have "parseTerm ''.x'' n = Inl StodInvalidArgument \<and>
   parseStream t0 l0 ''.x'' = Inl StodInvalidArgument \<and>
   parseTerm ''3'' n = Inl (InvalidTermFormat n ''3'') \<and>
   parseTerm ''3x'' n = Inr \<lparr>coefficient = Finite 3, variable = ''x''\<rparr> \<and>
   parseTerm ''x'' n = Inr \<lparr>coefficient = Finite 1, variable = ''x''\<rparr> \<and>
   parseTerm ''+y'' n = Inr \<lparr>coefficient = Finite 1, variable = ''y''\<rparr> \<and>
   parseTerm ''-x'' n = Inr \<lparr>coefficient = Finite (- 1), variable = ''x''\<rparr>"
    by (simp add: parseTerm_values parse_eval)
  then show ?thesis
    using parseTerm_no_match parseTerm_match_error by blast
qed

text \<open>
  The token \<^verbatim>\<open>3\<close> at line 4 is refused by the pattern, with its line; the token \<^verbatim>\<open>.x\<close> is
  matched, and its error is that of \<^verbatim>\<open>std::stod\<close>.
\<close>

theorem term_reader_lone_point_witness:
  "regex_match termPattern ''3'' = None \<and>
   parseTerm ''3'' 4 = Inl (InvalidTermFormat 4 ''3'') \<and>
   regex_match termPattern ''.x'' = Some [''.'', ''x''] \<and>
   parseTerm ''.x'' 4 = Inl StodInvalidArgument"
proof -
  have h: "regex_match termPattern ''3'' = None" "regex_match termPattern ''.x'' = Some [''.'', ''x'']"
    by code_simp+
  have "\<forall>token line. regex_match termPattern token = None \<longrightarrow>
      parseTerm token line = Inl (InvalidTermFormat line token)"
    using term_reader_lone_point [of 0 MAXIMIZE 0] by blast
  with h(1) have a: "parseTerm ''3'' 4 = Inl (InvalidTermFormat 4 ''3'')"
    by blast
  have "parseTerm ''.x'' 4 = Inl StodInvalidArgument"
    by (simp add: parseTerm_values)
  with h a show ?thesis by blast
qed


subsection \<open>C6: a second direction line\<close>

text \<open>
  What holds of two direction lines at the lines \<open>i < j\<close> of an input (counted from 0):
  parsing fails, and when the lines before \<open>j\<close> are read without an error the failure is
  the duplicate error with the number \<open>j + 1\<close>.
\<close>

lemma two_direction_lines:
  assumes "ls = getlines content (CHR 0x0A)"
    and "i < j" and "j < length ls" and "isDirection (ls ! i)" and "isDirection (ls ! j)"
  shows "(\<exists>e. parseStream t0 l0 content = Inl e) \<and>
         (\<forall>st. parseLines (initial_state t0 l0) (take j ls) = Inr st \<longrightarrow>
               parseStream t0 l0 content = Inl (DuplicateOptimizationType (int j + 1)))"
proof -
  let ?init = "initial_state t0 l0"
  have split: "ls = take j ls @ (ls ! j # drop (Suc j) ls)"
    using assms(3) by (simp add: id_take_nth_drop [symmetric])
  have step: "parseLines ?init ls = Inl (DuplicateOptimizationType (int j + 1))"
    if ok: "parseLines ?init (take j ls) = Inr st" for st
  proof -
    have "ls ! i \<in> set (take j ls)"
      using assms(2,3) by (auto simp add: in_set_conv_nth intro!: exI [of _ i])
    with assms(4) have "\<exists>l\<in>set (take j ls). isDirection l" by blast
    with ok have op: "objectiveParsed st" by (rule parseLines_after_direction)
    have ln: "lineNo st = int j"
      using parseLines_lineNo [OF ok] assms(3) by (simp add: initial_state_def)
    have "loopBody st (ls ! j) = Inl (DuplicateOptimizationType (int j + 1))"
      using assms(5) op ln by (simp add: loopBody_direction)
    then have "parseLines ?init (take j ls @ (ls ! j # drop (Suc j) ls)) =
        Inl (DuplicateOptimizationType (int j + 1))"
      using ok by (simp add: parseLines_append)
    with split show ?thesis by simp
  qed
  have "\<exists>e. parseLines ?init ls = Inl e"
  proof (cases "parseLines ?init (take j ls)")
    case (Inl e)
    then have "parseLines ?init (take j ls @ (ls ! j # drop (Suc j) ls)) = Inl e"
      by (simp add: parseLines_append)
    with split show ?thesis by auto
  next
    case (Inr st)
    then show ?thesis using step by blast
  qed
  with step show ?thesis
    unfolding parseStream_def assms(1) [symmetric] by auto
qed

lemma second_direction_lines:
  "getlines ''3x\<newline>Max\<newline>Max\<newline>'' (CHR 0x0A) = [''3x'', ''Max'', ''Max'']"
  "getlines ''Max\<newline>Max\<newline>'' (CHR 0x0A) = [''Max'', ''Max'']"
  "trim ''3x'' = ''3x''" "\<not> starts_with ''//'' ''3x''" "\<not> starts_with ''//'' ''Max''"
  "sregex_all tokenPattern ''3x'' = [''3x'']"
  by code_simp+

text \<open>
  C6. A second direction line is not always answered with the duplicate error at its own
  line. On \<^verbatim>\<open>"Max\n3x + 2y\nMax\n"\<close> the parse ends at line 2, where the objective is
  rejected as an unexpected line, and the second \<^verbatim>\<open>Max\<close> at line 3 is never read. On
  \<^verbatim>\<open>"3x\nMax\nMax\n"\<close> the duplicate error names line 2, the first direction line, since
  the objective has set the flag that the direction line tests. On \<^verbatim>\<open>"Max\nMax\n"\<close> the
  error is the duplicate error at line 2. In general an input with two direction lines is
  never parsed to a model, so the direction of the first is not overwritten.
\<close>

theorem second_direction_line:
  "parseStream t0 l0 ''Max\<newline>3x + 2y\<newline>Max\<newline>'' = Inl (UnexpectedLine 2) \<and>
   parseStream t0 l0 ''3x\<newline>Max\<newline>Max\<newline>'' = Inl (DuplicateOptimizationType 2) \<and>
   parseStream t0 l0 ''Max\<newline>Max\<newline>'' = Inl (DuplicateOptimizationType 2) \<and>
   (\<forall>content i j.
      i < j \<and> j < length (getlines content (CHR 0x0A)) \<and>
      isDirection (getlines content (CHR 0x0A) ! i) \<and>
      isDirection (getlines content (CHR 0x0A) ! j) \<longrightarrow>
      (\<exists>e. parseStream t0 l0 content = Inl e))"
proof -
  have "case parseStream t0 l0 ''Max\<newline>3x + 2y\<newline>Max\<newline>'' of
          Inl e \<Rightarrow> e = UnexpectedLine 2 | Inr _ \<Rightarrow> False"
    by code_simp
  then have a: "parseStream t0 l0 ''Max\<newline>3x + 2y\<newline>Max\<newline>'' = Inl (UnexpectedLine 2)"
    by (rule sum_is_Inl)
  have "parseExpression ''3x'' n = Inr [\<lparr>coefficient = Finite 3, variable = ''x''\<rparr>]" for n
    by (simp add: parseExpression_def second_direction_lines remove_spaces_values parseTerm_values)
  then have b: "parseStream t0 l0 ''3x\<newline>Max\<newline>Max\<newline>'' = Inl (DuplicateOptimizationType 2)"
    by (simp add: parseStream_def initial_state_def new_LPModel_def loopBody_def Let_def
        isBlank_def second_direction_lines trim_consts)
  have c: "parseStream t0 l0 ''Max\<newline>Max\<newline>'' = Inl (DuplicateOptimizationType 2)"
    by (simp add: parseStream_def initial_state_def new_LPModel_def loopBody_def Let_def
        isBlank_def second_direction_lines trim_consts)
  have "\<exists>e. parseStream t0 l0 content = Inl e"
    if "i < j" "j < length (getlines content (CHR 0x0A))"
      "isDirection (getlines content (CHR 0x0A) ! i)"
      "isDirection (getlines content (CHR 0x0A) ! j)" for content i j
    using two_direction_lines [OF refl that] by blast
  with a b c show ?thesis by blast
qed

text \<open>The input \<^verbatim>\<open>"Max\nBounds:\nMin\n"\<close>: two direction lines, and no model.\<close>

theorem second_direction_line_witness:
  "(0::nat) < 2 \<and>
   2 < length (getlines ''Max\<newline>Bounds:\<newline>Min\<newline>'' (CHR 0x0A)) \<and>
   isDirection (getlines ''Max\<newline>Bounds:\<newline>Min\<newline>'' (CHR 0x0A) ! 0) \<and>
   isDirection (getlines ''Max\<newline>Bounds:\<newline>Min\<newline>'' (CHR 0x0A) ! 2) \<and>
   (\<exists>e. parseStream MINIMIZE 0 ''Max\<newline>Bounds:\<newline>Min\<newline>'' = Inl e)"
proof -
  let ?c = "''Max\<newline>Bounds:\<newline>Min\<newline>''"
  have ls: "getlines ?c (CHR 0x0A) = [''Max'', ''Bounds:'', ''Min'']"
    by code_simp
  have d: "isDirection ''Max''" "isDirection ''Min''"
    by code_simp+
  have h: "(0::nat) < 2 \<and> 2 < length (getlines ?c (CHR 0x0A)) \<and>
      isDirection (getlines ?c (CHR 0x0A) ! 0) \<and> isDirection (getlines ?c (CHR 0x0A) ! 2)"
    using ls d by simp
  have "\<forall>content i j.
      i < j \<and> j < length (getlines content (CHR 0x0A)) \<and>
      isDirection (getlines content (CHR 0x0A) ! i) \<and>
      isDirection (getlines content (CHR 0x0A) ! j) \<longrightarrow>
      (\<exists>e. parseStream MINIMIZE 0 content = Inl e)"
    using second_direction_line [of MINIMIZE 0] by blast
  with h have "\<exists>e. parseStream MINIMIZE 0 ?c = Inl e"
    by blast
  with h show ?thesis by blast
qed


subsection \<open>C7: the lines of a \<^verbatim>\<open>Bounds:\<close> section\<close>




subsection \<open>C8: a line of a \<^verbatim>\<open>Binary:\<close> section\<close>

text \<open>
  C8. In every state of the parser after the first content line, the header \<^verbatim>\<open>Binary:\<close>
  followed by the line \<^verbatim>\<open>a, b\<close> is read without an error and changes the bounds map at
  \<open>a\<close> and \<open>b\<close> only: each gets the kind \<open>BINARY\<close>, the lower bound 0 and the upper
  bound 1, whatever lower and upper bound its entry had before.
\<close>

theorem binary_section:
  assumes "objectiveParsed st"
  shows "parseLines st [''Binary:'', ''a, b''] =
     Inr (st\<lparr>current := BINARIES,
             lineNo := lineNo st + 2,
             model := (model st)\<lparr>bounds := (bounds (model st))
               (''a'' \<mapsto> (bounds_ref (bounds (model st)) ''a'')
                          \<lparr>vtype := BINARY, lower := Finite 0, upper := Finite 1\<rparr>,
                ''b'' \<mapsto> (bounds_ref (bounds (model st)) ''b'')
                          \<lparr>vtype := BINARY, lower := Finite 0, upper := Finite 1\<rparr>)\<rparr>\<rparr>)"
  using assms
  by (simp add: loopBody_def Let_def isBlank_def trim_consts line_facts split_a_b declareVar_def
      bounds_ref_def)


text \<open>
  The input \<^verbatim>\<open>"Max\nBounds:\na >= 5\nBinary:\na, b\n"\<close>: the lower bound 5 of \<open>a\<close> is
  replaced.
\<close>

theorem binary_section_witness:
  "map_sum id (bound_of ''a'') (parseStream MAXIMIZE 0 ''Max\<newline>Bounds:\<newline>a >= 5\<newline>'') =
     Inr (Some \<lparr>lower = Finite 5, upper = PosInf, isFree = False, vtype = CONTINUOUS\<rparr>) \<and>
   map_sum id (bound_of ''a'')
     (parseStream MAXIMIZE 0 ''Max\<newline>Bounds:\<newline>a >= 5\<newline>Binary:\<newline>a, b\<newline>'') =
     Inr (Some \<lparr>lower = Finite 0, upper = Finite 1, isFree = False, vtype = BINARY\<rparr>) \<and>
   map_sum id (bound_of ''b'')
     (parseStream MAXIMIZE 0 ''Max\<newline>Bounds:\<newline>a >= 5\<newline>Binary:\<newline>a, b\<newline>'') =
     Inr (Some \<lparr>lower = Finite 0, upper = Finite 1, isFree = False, vtype = BINARY\<rparr>)"
proof -
  let ?st = "\<lparr>model = \<lparr>type = MAXIMIZE,
                        objective = \<lparr>terms = [], rhs = Finite 0, op = [], lineNumber = 0\<rparr>,
                        constraints = [],
                        bounds = [''a'' \<mapsto> \<lparr>lower = Finite 5, upper = PosInf, isFree = False,
                                             vtype = CONTINUOUS\<rparr>]\<rparr>,
              lineNo = 3, current = BOUNDS, objectiveParsed = True\<rparr>"
  have f: "getlines ''Max\<newline>Bounds:\<newline>a >= 5\<newline>'' (CHR 0x0A) = [''Max'', ''Bounds:'', ''a >= 5'']"
    "getlines ''Max\<newline>Bounds:\<newline>a >= 5\<newline>Binary:\<newline>a, b\<newline>'' (CHR 0x0A) =
       [''Max'', ''Bounds:'', ''a >= 5''] @ [''Binary:'', ''a, b'']"
    "trim ''a >= 5'' = ''a >= 5''" "\<not> starts_with ''//'' ''a >= 5''"
    "find_str ''a >= 5'' ''free'' = None"
    "regex_match boundPattern ''a >= 5'' = Some [''a'', ''>='', ''5'']"
    by code_simp+
  have pre: "parseLines (initial_state MAXIMIZE 0) [''Max'', ''Bounds:'', ''a >= 5''] = Inr ?st"
    by (simp add: bounds_eval f)
  then have one: "map_sum id (bound_of ''a'') (parseStream MAXIMIZE 0 ''Max\<newline>Bounds:\<newline>a >= 5\<newline>'') =
     Inr (Some \<lparr>lower = Finite 5, upper = PosInf, isFree = False, vtype = CONTINUOUS\<rparr>)"
    by (simp add: parseStream_def f bound_of_def)
  have "parseLines (initial_state MAXIMIZE 0) ([''Max'', ''Bounds:'', ''a >= 5''] @ [''Binary:'', ''a, b'']) =
      parseLines ?st [''Binary:'', ''a, b'']"
    by (simp only: parseLines_append pre sum.case)
  also have "\<dots> = Inr (?st\<lparr>current := BINARIES,
             lineNo := lineNo ?st + 2,
             model := (model ?st)\<lparr>bounds := (bounds (model ?st))
               (''a'' \<mapsto> (bounds_ref (bounds (model ?st)) ''a'')
                          \<lparr>vtype := BINARY, lower := Finite 0, upper := Finite 1\<rparr>,
                ''b'' \<mapsto> (bounds_ref (bounds (model ?st)) ''b'')
                          \<lparr>vtype := BINARY, lower := Finite 0, upper := Finite 1\<rparr>)\<rparr>\<rparr>)"
    by (rule binary_section) simp
  finally have "map_sum id (bound_of ''a'')
     (parseStream MAXIMIZE 0 ''Max\<newline>Bounds:\<newline>a >= 5\<newline>Binary:\<newline>a, b\<newline>'') =
     Inr (Some \<lparr>lower = Finite 0, upper = Finite 1, isFree = False, vtype = BINARY\<rparr>)"
   "map_sum id (bound_of ''b'')
     (parseStream MAXIMIZE 0 ''Max\<newline>Bounds:\<newline>a >= 5\<newline>Binary:\<newline>a, b\<newline>'') =
     Inr (Some \<lparr>lower = Finite 0, upper = Finite 1, isFree = False, vtype = BINARY\<rparr>)"
    by (simp_all add: parseStream_def f(2) bound_of_def bounds_ref_def default_Bound_def INFINITY_def)
  with one show ?thesis by simp
qed


subsection \<open>C9: two calls on the same input\<close>

text \<open>
  What two calls on the same input agree on, whatever the two indeterminate fields of their
  new models hold: the error, or else the objective terms (with the right-hand side and the
  operator), the constraints, the bounds and, when the input has a direction line, the
  direction.
\<close>

lemma parse_agreement:
  "(\<forall>e. (parseStream t1 l1 content = Inl e) = (parseStream t2 l2 content = Inl e)) \<and>
   (\<forall>m1 m2. parseStream t1 l1 content = Inr m1 \<and> parseStream t2 l2 content = Inr m2 \<longrightarrow>
      terms (objective m1) = terms (objective m2) \<and>
      rhs (objective m1) = rhs (objective m2) \<and>
      op (objective m1) = op (objective m2) \<and>
      constraints m1 = constraints m2 \<and>
      bounds m1 = bounds m2 \<and>
      ((\<exists>l\<in>set (getlines content (CHR 0x0A)). isDirection l) \<longrightarrow> type m1 = type m2))"
proof -
  let ?E = "\<lambda>s. s\<lparr>model := erase_indeterminate (model s)\<rparr>"
  let ?ls = "getlines content (CHR 0x0A)"
  let ?p1 = "parseLines (initial_state t1 l1) ?ls"
  let ?p2 = "parseLines (initial_state t2 l2) ?ls"
  have init: "?E (initial_state t1 l1) = ?E (initial_state t2 l2)"
    by (simp add: initial_state_def new_LPModel_def erase_indeterminate_def)
  have "map_sum id ?E ?p1 = map_sum id ?E (parseLines (?E (initial_state t1 l1)) ?ls)"
    by (rule parseLines_erase [symmetric])
  also have "\<dots> = map_sum id ?E ?p2"
    unfolding init by (rule parseLines_erase)
  finally have eq: "map_sum id ?E ?p1 = map_sum id ?E ?p2" .
  have errs: "(parseStream t1 l1 content = Inl e) = (parseStream t2 l2 content = Inl e)" for e
    using eq unfolding parseStream_def by (cases ?p1; cases ?p2) auto
  have oks: "terms (objective m1) = terms (objective m2) \<and>
      rhs (objective m1) = rhs (objective m2) \<and>
      op (objective m1) = op (objective m2) \<and>
      constraints m1 = constraints m2 \<and>
      bounds m1 = bounds m2 \<and>
      ((\<exists>l\<in>set ?ls. isDirection l) \<longrightarrow> type m1 = type m2)"
    if h: "parseStream t1 l1 content = Inr m1" "parseStream t2 l2 content = Inr m2" for m1 m2
  proof -
    from h obtain r1 r2 where r: "?p1 = Inr r1" "?p2 = Inr r2" and m: "m1 = model r1" "m2 = model r2"
      unfolding parseStream_def by (auto split: sum.splits)
    from eq r have "erase_indeterminate (model r1) = erase_indeterminate (model r2)"
      by (simp, metis parser_state.select_convs(1) parser_state.surjective parser_state.update_convs(1))
    then have e: "erase_indeterminate m1 = erase_indeterminate m2" using m by simp
    have a: "terms (objective m1) = terms (objective (erase_indeterminate m1))"
         "rhs (objective m1) = rhs (objective (erase_indeterminate m1))"
         "op (objective m1) = op (objective (erase_indeterminate m1))"
         "constraints m1 = constraints (erase_indeterminate m1)"
         "bounds m1 = bounds (erase_indeterminate m1)"
      by (simp_all add: erase_indeterminate_def)
    have b: "terms (objective m2) = terms (objective (erase_indeterminate m2))"
         "rhs (objective m2) = rhs (objective (erase_indeterminate m2))"
         "op (objective m2) = op (objective (erase_indeterminate m2))"
         "constraints m2 = constraints (erase_indeterminate m2)"
         "bounds m2 = bounds (erase_indeterminate m2)"
      by (simp_all add: erase_indeterminate_def)
    have t: "type m1 = type m2" if "\<exists>l\<in>set ?ls. isDirection l"
      using parseLines_type [OF r] that m by simp
    from a b e t show ?thesis by simp
  qed
  from errs oks show ?thesis by blast
qed

lemma erased_agreement:
  "map_sum id erase_indeterminate (parseStream t1 l1 content) =
   map_sum id erase_indeterminate (parseStream t2 l2 content)"
proof -
  let ?E = "\<lambda>s. s\<lparr>model := erase_indeterminate (model s)\<rparr>"
  let ?ls = "getlines content (CHR 0x0A)"
  let ?p1 = "parseLines (initial_state t1 l1) ?ls"
  let ?p2 = "parseLines (initial_state t2 l2) ?ls"
  have init: "?E (initial_state t1 l1) = ?E (initial_state t2 l2)"
    by (simp add: initial_state_def new_LPModel_def erase_indeterminate_def)
  have "map_sum id ?E ?p1 = map_sum id ?E (parseLines (?E (initial_state t1 l1)) ?ls)"
    by (rule parseLines_erase [symmetric])
  also have "\<dots> = map_sum id ?E ?p2"
    unfolding init by (rule parseLines_erase)
  finally have eq: "map_sum id ?E ?p1 = map_sum id ?E ?p2" .
  have m: "model (?E r) = erase_indeterminate (model r)" for r
    by simp
  show ?thesis
  proof (cases ?p1)
    case (Inl e)
    with eq have "?p2 = Inl e" by (cases ?p2) auto
    with Inl show ?thesis by (simp add: parseStream_def)
  next
    case (Inr r1)
    with eq obtain r2 where r2: "?p2 = Inr r2" and e: "?E r1 = ?E r2"
      by (cases ?p2) auto
    from e have "model (?E r1) = model (?E r2)" by (simp only:)
    then have "erase_indeterminate (model r1) = erase_indeterminate (model r2)"
      by (simp only: m)
    with Inr r2 show ?thesis by (simp add: parseStream_def)
  qed
qed

lemma carried_over_lines:
  "getlines ''Min\<newline>Bounds:\<newline>x free\<newline>'' (CHR 0x0A) = [''Min'', ''Bounds:'', ''x free'']"
  "\<not> starts_with ''//'' ''Min''"
  by code_simp+

text \<open>
  C9. Two calls on the same input do not always return the same model: \<^verbatim>\<open>LPModel model;\<close>
  leaves \<^verbatim>\<open>type\<close> and \<^verbatim>\<open>objective.lineNumber\<close> without a value, and the parser returns
  what the memory held wherever the input does not assign them. On
  \<^verbatim>\<open>"Min\nBounds:\nx free\n"\<close> the line number of the objective is the indeterminate one,
  so a call that finds 0 there and a call that finds 5 return different models; on
  \<^verbatim>\<open>"3x + 2y"\<close> the direction is the indeterminate one. Everything else is the same in
  the two calls: with the two fields erased, the results are equal.
\<close>

theorem indeterminate_fields_returned:
  "map_sum id (lineNumber \<circ> objective)
     (parseStream t0 l0 ''Min\<newline>Bounds:\<newline>x free\<newline>'') = Inr l0 \<and>
   parseStream MAXIMIZE 0 ''Min\<newline>Bounds:\<newline>x free\<newline>'' \<noteq>
     parseStream MAXIMIZE 5 ''Min\<newline>Bounds:\<newline>x free\<newline>'' \<and>
   map_sum id type (parseStream t0 l0 ''3x + 2y'') = Inr t0 \<and>
   parseStream MAXIMIZE 0 ''3x + 2y'' \<noteq> parseStream MINIMIZE 0 ''3x + 2y'' \<and>
   map_sum id erase_indeterminate (parseStream t1 l1 content) =
     map_sum id erase_indeterminate (parseStream t2 l2 content)"
proof -
  have a: "map_sum id (lineNumber \<circ> objective)
     (parseStream t l ''Min\<newline>Bounds:\<newline>x free\<newline>'') = Inr l" for t l
    by (simp add: bounds_eval carried_over_lines)
  have b: "parseStream MAXIMIZE 0 ''Min\<newline>Bounds:\<newline>x free\<newline>'' \<noteq>
     parseStream MAXIMIZE 5 ''Min\<newline>Bounds:\<newline>x free\<newline>''"
  proof
    assume "parseStream MAXIMIZE 0 ''Min\<newline>Bounds:\<newline>x free\<newline>'' =
      parseStream MAXIMIZE 5 ''Min\<newline>Bounds:\<newline>x free\<newline>''"
    then have "map_sum id (lineNumber \<circ> objective)
        (parseStream MAXIMIZE 0 ''Min\<newline>Bounds:\<newline>x free\<newline>'') =
      map_sum id (lineNumber \<circ> objective)
        (parseStream MAXIMIZE 5 ''Min\<newline>Bounds:\<newline>x free\<newline>'')"
      by (simp only:)
    then show False by (simp only: a) simp
  qed
  have c: "map_sum id type (parseStream t l ''3x + 2y'') = Inr t" for t l
    by (simp add: parse_eval)
  have d: "parseStream MAXIMIZE 0 ''3x + 2y'' \<noteq> parseStream MINIMIZE 0 ''3x + 2y''"
  proof
    assume "parseStream MAXIMIZE 0 ''3x + 2y'' = parseStream MINIMIZE 0 ''3x + 2y''"
    then have "map_sum id type (parseStream MAXIMIZE 0 ''3x + 2y'') =
      map_sum id type (parseStream MINIMIZE 0 ''3x + 2y'')"
      by (simp only:)
    then show False by (simp only: c) simp
  qed
  from a b c d erased_agreement show ?thesis by blast
qed


subsection \<open>C10: \<^verbatim>\<open>free\<close> anywhere in a line of the \<^verbatim>\<open>Bounds:\<close> section\<close>

text \<open>
  C10. In the \<^verbatim>\<open>Bounds:\<close> section every line that holds \<^verbatim>\<open>free\<close> (and is not a comment)
  is read as a declaration of a free variable: the name is the trimmed text before the
  first \<^verbatim>\<open>free\<close>, its entry gets the flag \<open>isFree\<close>, and nothing else changes. So the
  line \<^verbatim>\<open>freedom >= 3\<close> is accepted, marks the variable with the empty name as free, and
  makes no entry for \<open>freedom\<close>.
\<close>

theorem free_anywhere:
  "map_sum id (bound_of []) (parseStream t0 l0 ''Max\<newline>Bounds:\<newline>freedom >= 3\<newline>'') =
     Inr (Some \<lparr>lower = NegInf, upper = PosInf, isFree = True, vtype = CONTINUOUS\<rparr>) \<and>
   map_sum id (bound_of ''freedom'') (parseStream t0 l0 ''Max\<newline>Bounds:\<newline>freedom >= 3\<newline>'') =
     Inr None \<and>
   (\<forall>st raw i.
      objectiveParsed st \<and> current st = BOUNDS \<and> \<not> starts_with ''//'' (trim raw) \<and>
      find_str (trim raw) ''free'' = Some i \<longrightarrow>
      loopBody st raw =
        Inr (st\<lparr>lineNo := lineNo st + 1,
                model := (model st)\<lparr>bounds := (bounds (model st))
                  (trim (take i (trim raw)) \<mapsto>
                     (bounds_ref (bounds (model st)) (trim (take i (trim raw))))\<lparr>isFree := True\<rparr>)\<rparr>\<rparr>))"
proof -
  have "map_sum id (bound_of []) (parseStream t0 l0 ''Max\<newline>Bounds:\<newline>freedom >= 3\<newline>'') =
     Inr (Some \<lparr>lower = NegInf, upper = PosInf, isFree = True, vtype = CONTINUOUS\<rparr>)"
    "map_sum id (bound_of ''freedom'') (parseStream t0 l0 ''Max\<newline>Bounds:\<newline>freedom >= 3\<newline>'') =
     Inr None"
    by (simp_all add: bounds_eval)
  then show ?thesis
    using loopBody_free by blast
qed

text \<open>The line \<^verbatim>\<open>freedom >= 3\<close> as the third line of an input, in the \<^verbatim>\<open>Bounds:\<close> section.\<close>

theorem free_anywhere_witness:
  "\<not> starts_with ''//'' (trim ''freedom >= 3'') \<and>
   find_str (trim ''freedom >= 3'') ''free'' = Some 0 \<and>
   map_sum id (bound_of [] \<circ> model)
     (loopBody \<lparr>model = new_LPModel MAXIMIZE 0, lineNo = 2, current = BOUNDS,
                objectiveParsed = True\<rparr> ''freedom >= 3'') =
     Inr (Some \<lparr>lower = NegInf, upper = PosInf, isFree = True, vtype = CONTINUOUS\<rparr>) \<and>
   map_sum id (bound_of ''freedom'' \<circ> model)
     (loopBody \<lparr>model = new_LPModel MAXIMIZE 0, lineNo = 2, current = BOUNDS,
                objectiveParsed = True\<rparr> ''freedom >= 3'') = Inr None"
proof -
  let ?st = "\<lparr>model = new_LPModel MAXIMIZE 0, lineNo = 2, current = BOUNDS, objectiveParsed = True\<rparr>"
  have h: "\<not> starts_with ''//'' (trim ''freedom >= 3'')"
    "find_str (trim ''freedom >= 3'') ''free'' = Some 0"
    by (simp_all add: bounds_lines)
  have "\<forall>st raw i.
      objectiveParsed st \<and> current st = BOUNDS \<and> \<not> starts_with ''//'' (trim raw) \<and>
      find_str (trim raw) ''free'' = Some i \<longrightarrow>
      loopBody st raw =
        Inr (st\<lparr>lineNo := lineNo st + 1,
                model := (model st)\<lparr>bounds := (bounds (model st))
                  (trim (take i (trim raw)) \<mapsto>
                     (bounds_ref (bounds (model st)) (trim (take i (trim raw))))\<lparr>isFree := True\<rparr>)\<rparr>\<rparr>)"
    using free_anywhere [of MAXIMIZE 0] by blast
  then have "loopBody ?st ''freedom >= 3'' =
      Inr (?st\<lparr>lineNo := lineNo ?st + 1,
                model := (model ?st)\<lparr>bounds := (bounds (model ?st))
                  (trim (take 0 (trim ''freedom >= 3'')) \<mapsto>
                     (bounds_ref (bounds (model ?st)) (trim (take 0 (trim ''freedom >= 3''))))\<lparr>isFree := True\<rparr>)\<rparr>\<rparr>)"
    using h by fastforce
  then have "map_sum id (bound_of [] \<circ> model) (loopBody ?st ''freedom >= 3'') =
       Inr (Some \<lparr>lower = NegInf, upper = PosInf, isFree = True, vtype = CONTINUOUS\<rparr>)"
    "map_sum id (bound_of ''freedom'' \<circ> model) (loopBody ?st ''freedom >= 3'') = Inr None"
    by (simp_all add: bound_of_def new_LPModel_def bounds_ref_def default_Bound_def INFINITY_def
        bounds_lines)
  with h show ?thesis by simp
qed


end
